theory Spec2Isabelle
  imports
    Complex_Main
    "HOL-Library.Char_ord"
    "HOL-Library.List_Lexorder"
    "HOL-Library.Product_Lexorder"
    "HOL-Library.Multiset"
begin

section \<open>Shared data: exceptions, JSON values, HTTP exchanges, user-visible messages\<close>

text \<open>
  The two web variants (\<^verbatim>\<open>app.py\<close>, the public one, and \<^verbatim>\<open>app_unibe.py\<close>, the university
  one) define functions of the same names. Where the bodies are the same text the
  embedding has one definition under the source's name; where they differ there are two,
  prefixed \<open>app_\<close> and \<open>unibe_\<close> (for the upload, two instances of one body that takes
  what differs as arguments).

  Strings are \<^typ>\<open>string\<close>: a character is a code point below 256. Python exceptions are
  values; every exception named here is a subclass of \<^verbatim>\<open>Exception\<close>, so the handlers
  \<^verbatim>\<open>except Exception\<close> of the source catch each of them.
\<close>

datatype py_exn =
    NameError string
  | AttributeError
  | TypeError
  | ValueError
  | JSONDecodeError
  | Timeout
  | ConnectionError
  | OSError
  | VendorError string

text \<open>
  What \<^verbatim>\<open>response.json()\<close> yields. Numbers are integers here (a float is truthy exactly
  when it is not zero, as an integer is). An object is the list of its key/value pairs in
  document order.
\<close>

datatype json =
    JNull
  | JBool bool
  | JNum int
  | JStr string
  | JArr "json list"
  | JObj "(string \<times> json) list"

text \<open>Python's truth value of a decoded JSON value (\<^verbatim>\<open>if v:\<close>, \<^verbatim>\<open>not v\<close>).\<close>

fun truthy :: "json \<Rightarrow> bool" where
  "truthy JNull = False"
| "truthy (JBool b) = b"
| "truthy (JNum n) = (n \<noteq> 0)"
| "truthy (JStr s) = (s \<noteq> [])"
| "truthy (JArr xs) = (xs \<noteq> [])"
| "truthy (JObj kvs) = (kvs \<noteq> [])"

text \<open>
  \<^verbatim>\<open>d.get(key, default)\<close>: only a \<^verbatim>\<open>dict\<close> has the method; on any other decoded value the
  attribute lookup raises \<^verbatim>\<open>AttributeError\<close>.
\<close>

fun dict_get :: "json \<Rightarrow> string \<Rightarrow> json \<Rightarrow> py_exn + json" where
  "dict_get (JObj kvs) k dflt = Inr (case map_of kvs k of None \<Rightarrow> dflt | Some v \<Rightarrow> v)"
| "dict_get _ k dflt = Inl AttributeError"

text \<open>
  An HTTP response as the code reads it: \<^verbatim>\<open>status_code\<close>, \<^verbatim>\<open>text\<close> (here \<open>body_text\<close>) and
  the result of \<^verbatim>\<open>json()\<close>, which is \<open>None\<close> when decoding raises. A call of the
  \<^verbatim>\<open>requests\<close> library either returns a response or raises.
\<close>

record response =
  status_code :: int
  body_text :: string
  json_body :: "json option"

datatype http_outcome = Raised py_exn | Returned response

record request =
  http_method :: string
  url :: string
  headers :: "(string \<times> string) list"
  params :: "(string \<times> json) list"
  timeout :: "nat option"

text \<open>
  What the page shows. The fixed German wording of each message is left out; the
  interpolated value is kept. The first three are the \<^verbatim>\<open>st.error\<close> messages of the catalog
  functions, with a status code, a response body, or an exception. The others belong to
  the upload form: the size of the file (\<^verbatim>\<open>st.info\<close>, here with the size in bytes), the
  error for a file that is too large, the upload button, and the two messages after an
  upload.
\<close>

datatype ui_event =
    Error_status int
  | Error_body string
  | Error_exception py_exn
  | Info_file_size nat
  | Error_file_too_large
  | Button_upload
  | Success_upload
  | Error_upload

section \<open>Catalog delete\<close>

definition documents_base :: string where
  "documents_base = ''https://generativelanguage.googleapis.com/v1beta/''"

definition delete_request :: "string \<Rightarrow> string \<Rightarrow> request" where
  "delete_request api_key document_name =
     \<lparr>http_method = ''DELETE'',
      url = documents_base @ document_name,
      headers = [(''x-goog-api-key'', api_key)],
      params = [(''force'', JStr ''true'')],
      timeout = None\<rparr>"

text \<open>
  \<^verbatim>\<open>delete_document\<close> of \<^verbatim>\<open>app.py\<close> (lines 157-175). The first argument is the network:
  what \<^verbatim>\<open>requests.delete\<close> does with the request. The result is the returned flag and
  the messages shown.
\<close>

definition app_delete_document ::
  "(request \<Rightarrow> http_outcome) \<Rightarrow> string \<Rightarrow> string \<Rightarrow> bool \<times> ui_event list" where
  "app_delete_document net api_key document_name =
     (case net (delete_request api_key document_name) of
        Raised e \<Rightarrow> (False, [Error_exception e])
      | Returned r \<Rightarrow>
          if status_code r = 200 then (True, [])
          else (False, [Error_status (status_code r), Error_body (body_text r)]))"

text \<open>
  \<^verbatim>\<open>delete_document\<close> of \<^verbatim>\<open>app_unibe.py\<close> (lines 190-216):
  \<^verbatim>\<open>if response.status_code in [200, 204]\<close>.
\<close>

definition unibe_delete_document ::
  "(request \<Rightarrow> http_outcome) \<Rightarrow> string \<Rightarrow> string \<Rightarrow> bool \<times> ui_event list" where
  "unibe_delete_document net api_key document_name =
     (case net (delete_request api_key document_name) of
        Raised e \<Rightarrow> (False, [Error_exception e])
      | Returned r \<Rightarrow>
          if status_code r \<in> set [200, 204] then (True, [])
          else (False, [Error_status (status_code r), Error_body (body_text r)]))"

section \<open>Registry numbers: \<^verbatim>\<open>extract_bsg_number\<close>\<close>

subsection \<open>Regular expressions as \<^verbatim>\<open>re\<close> runs them\<close>

text \<open>
  \<^verbatim>\<open>re.search(r'BSG[\s_]?([\d.]+(?:-\d+)?)', title)\<close> (lines 32-37 of \<^verbatim>\<open>app.py\<close>, 54-59 of
  \<^verbatim>\<open>app_unibe.py\<close>). The pattern is a term of \<open>regex\<close>; \<open>rmatch\<close> is the backtracking
  matcher: it lists every way the expression matches a prefix of the string, in the
  order in which \<^verbatim>\<open>re\<close> tries them (a greedy \<^verbatim>\<open>?\<close> or \<^verbatim>\<open>+\<close> tries to take more first), each
  with the text of group 1 if the group has taken part and the rest of the string. The
  match \<^verbatim>\<open>re\<close> reports is the first of the list.
\<close>

datatype regex =
    Chr char
  | Cls "char \<Rightarrow> bool"
  | Seq regex regex
  | Opt regex
  | Plus regex
  | Grp regex

definition later_group ::
  "string option \<Rightarrow> (string option \<times> string) \<Rightarrow> (string option \<times> string)" where
  "later_group g m = (case fst m of None \<Rightarrow> (g, snd m) | Some v \<Rightarrow> m)"

fun rmatch :: "regex \<Rightarrow> string \<Rightarrow> (string option \<times> string) list" where
  "rmatch (Chr c) s = (case s of [] \<Rightarrow> [] | x # xs \<Rightarrow> if x = c then [(None, xs)] else [])"
| "rmatch (Cls p) s = (case s of [] \<Rightarrow> [] | x # xs \<Rightarrow> if p x then [(None, xs)] else [])"
| "rmatch (Seq r1 r2) s =
     concat (map (\<lambda>m1. map (later_group (fst m1)) (rmatch r2 (snd m1))) (rmatch r1 s))"
| "rmatch (Opt r) s = rmatch r s @ [(None, s)]"
| "rmatch (Plus r) s =
     concat (map (\<lambda>m1. (if length (snd m1) < length s
                           then map (later_group (fst m1)) (rmatch (Plus r) (snd m1)) else [])
                         @ [m1])
                 (rmatch r s))"
| "rmatch (Grp r) s =
     map (\<lambda>m. (Some (take (length s - length (snd m)) s), snd m)) (rmatch r s)"

text \<open>
  \<^verbatim>\<open>re.search\<close> tries the start positions from left to right, the end of the string
  included, and reports the first match of the first position that has one.
\<close>

fun re_search :: "regex \<Rightarrow> string \<Rightarrow> (string option \<times> string) option" where
  "re_search r [] = (case rmatch r [] of [] \<Rightarrow> None | m # ms \<Rightarrow> Some m)"
| "re_search r (c # cs) =
     (case rmatch r (c # cs) of [] \<Rightarrow> re_search r cs | m # ms \<Rightarrow> Some m)"

text \<open>
  The classes of a \<^verbatim>\<open>str\<close> pattern, on code points below 256: \<^verbatim>\<open>\d\<close> is the ten decimal
  digits; \<^verbatim>\<open>\s\<close> is the white space of \<^verbatim>\<open>str.isspace\<close> (tab to carriage return, the four
  separators 28 to 31, the space, NEL and the no-break space).
\<close>

definition digit_class :: "char \<Rightarrow> bool" where
  "digit_class c = (c \<in> set ''0123456789'')"

definition space_class :: "char \<Rightarrow> bool" where
  "space_class c =
     (of_char c \<in> set [9, 10, 11, 12, 13, 28, 29, 30, 31, 32, 133, 160 :: nat])"

definition number_class :: "char \<Rightarrow> bool" where
  "number_class c = (digit_class c \<or> c = CHR ''.'')"

definition separator_class :: "char \<Rightarrow> bool" where
  "separator_class c = (space_class c \<or> c = CHR ''_'')"

definition bsg_pattern :: regex where
  "bsg_pattern =
     Seq (Chr CHR ''B'') (Seq (Chr CHR ''S'') (Seq (Chr CHR ''G'')
       (Seq (Opt (Cls separator_class))
            (Grp (Seq (Plus (Cls number_class))
                      (Opt (Seq (Chr CHR ''-'') (Plus (Cls digit_class)))))))))"

text \<open>\<^verbatim>\<open>if bsg_match: return bsg_match.group(1)\<close>, else \<^verbatim>\<open>return None\<close>.\<close>

definition extract_bsg_number :: "string \<Rightarrow> string option" where
  "extract_bsg_number title =
     (case re_search bsg_pattern title of None \<Rightarrow> None | Some m \<Rightarrow> fst m)"

text \<open>The book number of a registry number: \<^verbatim>\<open>bsg_nr.split('.')[0]\<close>.\<close>

definition rechtsbuch :: "string \<Rightarrow> string" where
  "rechtsbuch bsg_nr = takeWhile (\<lambda>c. c \<noteq> CHR ''.'') bsg_nr"

subsection \<open>The registry pattern in the specification's words\<close>

text \<open>
  A title matches the registry pattern when it contains the marker \<^verbatim>\<open>BSG\<close>, then at most
  one separator (white space or an underscore), then a segment: digits and dots, which
  a dash and digits may follow.
\<close>

definition separator_ok :: "string \<Rightarrow> bool" where
  "separator_ok sep = (case sep of [] \<Rightarrow> True | c # cs \<Rightarrow> separator_class c \<and> cs = [])"

definition registry_segment :: "string \<Rightarrow> bool" where
  "registry_segment r =
     (takeWhile number_class r \<noteq> [] \<and>
      (case dropWhile number_class r of [] \<Rightarrow> True
       | c # es \<Rightarrow> c = CHR ''-'' \<and> es \<noteq> [] \<and> list_all digit_class es))"

definition match_starts :: "string \<Rightarrow> bool" where
  "match_starts t =
     (\<exists>sep r rest. t = ''BSG'' @ sep @ r @ rest \<and> separator_ok sep \<and> registry_segment r)"

definition registry_pattern_matches :: "string \<Rightarrow> bool" where
  "registry_pattern_matches title = (\<exists>pre t. title = pre @ t \<and> match_starts t)"

subsection \<open>The match at one position, computed directly\<close>

text \<open>
  Three functions for the proofs: what the pattern takes at a given position, without
  the matcher. \<open>first_match_bsg_pattern\<close> shows that they compute the matcher's first
  result.
\<close>

definition first_match :: "regex \<Rightarrow> string \<Rightarrow> (string option \<times> string) option" where
  "first_match r s = (case rmatch r s of [] \<Rightarrow> None | m # ms \<Rightarrow> Some m)"

definition dash_tail :: "string \<Rightarrow> string" where
  "dash_tail s =
     (case s of [] \<Rightarrow> []
      | x # t \<Rightarrow> if x = CHR ''-'' \<and> takeWhile digit_class t \<noteq> []
                 then x # takeWhile digit_class t else [])"

definition number_at :: "string \<Rightarrow> string option" where
  "number_at s =
     (if takeWhile number_class s = [] then None
      else Some (takeWhile number_class s @ dash_tail (dropWhile number_class s)))"

definition match_at :: "string \<Rightarrow> string option" where
  "match_at s =
     (if take 3 s = ''BSG''
      then (case drop 3 s of [] \<Rightarrow> None
            | x # xs \<Rightarrow> if separator_class x then number_at xs else number_at (x # xs))
      else None)"

abbreviation dash_part :: regex where
  "dash_part \<equiv> Seq (Chr CHR ''-'') (Plus (Cls digit_class))"

abbreviation number_part :: regex where
  "number_part \<equiv> Seq (Plus (Cls number_class)) (Opt dash_part)"

section \<open>Catalog display: grouping by book number\<close>

text \<open>
  A document record of the vendor's store, as the display code reads it: \<^verbatim>\<open>doc['name']\<close>
  and \<^verbatim>\<open>doc.get('displayName', 'Unbekannt')\<close>.
\<close>

record document =
  name :: string
  displayName :: "string option"

definition display_name_of :: "document \<Rightarrow> string" where
  "display_name_of doc = (case displayName doc of None \<Rightarrow> ''Unbekannt'' | Some s \<Rightarrow> s)"

text \<open>
  \<^verbatim>\<open>rechtsbuecher = defaultdict(list)\<close>: a dictionary keeps its keys in the order of their
  first insertion, so it is a list of pairs with distinct keys.
  \<^verbatim>\<open>rechtsbuecher[k].append(v)\<close> is \<open>dd_append\<close>, and reading a key is \<open>dd_lookup\<close>.
\<close>

fun dd_append :: "string \<Rightarrow> 'v \<Rightarrow> (string \<times> 'v list) list \<Rightarrow> (string \<times> 'v list) list" where
  "dd_append k v [] = [(k, [v])]"
| "dd_append k v ((k', vs) # d) =
     (if k' = k then (k', vs @ [v]) # d else (k', vs) # dd_append k v d)"

definition dd_lookup :: "(string \<times> 'v list) list \<Rightarrow> string \<Rightarrow> 'v list" where
  "dd_lookup d k = (case map_of d k of None \<Rightarrow> [] | Some vs \<Rightarrow> vs)"

text \<open>
  The loop of lines 513-522 of \<^verbatim>\<open>app.py\<close> (743-752 of \<^verbatim>\<open>app_unibe.py\<close>). The state is the
  pair of \<^verbatim>\<open>rechtsbuecher\<close> and \<^verbatim>\<open>documents_without_bsg\<close>. \<^verbatim>\<open>if bsg_nr:\<close> is false for
  \<^verbatim>\<open>None\<close> and for the empty string.
\<close>

definition group_step ::
  "(string \<times> (string \<times> document) list) list \<times> document list \<Rightarrow> document \<Rightarrow>
   (string \<times> (string \<times> document) list) list \<times> document list" where
  "group_step st doc =
     (case extract_bsg_number (display_name_of doc) of
        None \<Rightarrow> (fst st, snd st @ [doc])
      | Some bsg_nr \<Rightarrow>
          if bsg_nr \<noteq> [] then (dd_append (rechtsbuch bsg_nr) (bsg_nr, doc) (fst st), snd st)
          else (fst st, snd st @ [doc]))"

definition group_documents ::
  "document list \<Rightarrow> (string \<times> (string \<times> document) list) list \<times> document list" where
  "group_documents documents = foldl group_step ([], []) documents"

text \<open>
  \<^verbatim>\<open>str.isdigit\<close> on code points below 256: the ten decimal digits and the superscripts
  two, three and one (178, 179, 185) are digits to it, and the empty string is not all
  digits. \<^verbatim>\<open>int(x)\<close>, on a string that \<^verbatim>\<open>str.isdigit\<close> accepts, is the decimal value when
  every character is a decimal digit; it raises \<^verbatim>\<open>ValueError\<close> on a superscript, and on a
  string of more digits than the interpreter converts (4300 unless configured otherwise).
\<close>

definition isdigit_char :: "char \<Rightarrow> bool" where
  "isdigit_char c = (digit_class c \<or> of_char c \<in> set [178, 179, 185 :: nat])"

definition py_isdigit :: "string \<Rightarrow> bool" where
  "py_isdigit s = (s \<noteq> [] \<and> list_all isdigit_char s)"

definition decimal_value :: "string \<Rightarrow> int" where
  "decimal_value s = foldl (\<lambda>n c. 10 * n + (int (of_char c) - 48)) 0 s"

definition max_str_digits :: nat where
  "max_str_digits = 4300"

definition py_int :: "string \<Rightarrow> py_exn + int" where
  "py_int s =
     (if s \<noteq> [] \<and> list_all digit_class s \<and> length s \<le> max_str_digits
      then Inr (decimal_value s) else Inl ValueError)"

text \<open>
  \<^verbatim>\<open>sorted(xs, key=f)\<close>: the key of every element is computed first, in order (the first
  exception ends the call); then the elements are sorted by their keys, equal keys
  keeping their order. Tuples compare lexicographically, strings by code points.
\<close>

fun keys_of :: "('a \<Rightarrow> py_exn + 'k) \<Rightarrow> 'a list \<Rightarrow> py_exn + ('k \<times> 'a) list" where
  "keys_of f [] = Inr []"
| "keys_of f (x # xs) =
     (case f x of Inl e \<Rightarrow> Inl e
      | Inr k \<Rightarrow> (case keys_of f xs of Inl e \<Rightarrow> Inl e | Inr kxs \<Rightarrow> Inr ((k, x) # kxs)))"

definition py_sorted :: "('a \<Rightarrow> py_exn + 'k::linorder) \<Rightarrow> 'a list \<Rightarrow> py_exn + 'a list" where
  "py_sorted f xs =
     (case keys_of f xs of Inl e \<Rightarrow> Inl e | Inr kxs \<Rightarrow> Inr (map snd (sort_key fst kxs)))"

text \<open>\<^verbatim>\<open>lambda x: (int(x) if x.isdigit() else 999999, x)\<close>\<close>

definition rechtsbuch_key :: "string \<Rightarrow> py_exn + (int \<times> string)" where
  "rechtsbuch_key x =
     (if py_isdigit x
      then (case py_int x of Inl e \<Rightarrow> Inl e | Inr n \<Rightarrow> Inr (n, x))
      else Inr (999999, x))"

definition sorted_rechtsbuecher ::
  "(string \<times> (string \<times> document) list) list \<Rightarrow> py_exn + string list" where
  "sorted_rechtsbuecher rechtsbuecher = py_sorted rechtsbuch_key (map fst rechtsbuecher)"

text \<open>
  The sections shown, in order: for each book number of \<^verbatim>\<open>sorted_rechtsbuecher\<close> its
  documents \<^verbatim>\<open>sorted(docs_list, key=lambda x: x[0])\<close>.
\<close>

definition rechtsbuch_sections ::
  "document list \<Rightarrow> py_exn + (string \<times> (string \<times> document) list) list" where
  "rechtsbuch_sections documents =
     (let rechtsbuecher = fst (group_documents documents) in
      case sorted_rechtsbuecher rechtsbuecher of
        Inl e \<Rightarrow> Inl e
      | Inr ks \<Rightarrow> Inr (map (\<lambda>k. (k, sort_key fst (dd_lookup rechtsbuecher k))) ks))"

text \<open>
  For the proofs: the sort key as a total function, and the characters a book number can
  have (\<open>group_documents_keys\<close> shows that every key of the grouping has only these, so
  that \<^verbatim>\<open>int\<close> raises there for no other reason than the number of digits).
\<close>

definition book_key :: "string \<Rightarrow> int \<times> string" where
  "book_key k = (if py_isdigit k then decimal_value k else 999999, k)"

definition book_chars :: "string \<Rightarrow> bool" where
  "book_chars k = list_all (\<lambda>c. digit_class c \<or> c = CHR ''-'') k"

section \<open>Citation formatter: \<^verbatim>\<open>format_grounding_chunks\<close>\<close>

text \<open>
  The response of the generative service, as far as the formatter reads it (lines 59-87
  of \<^verbatim>\<open>app.py\<close>, 81-109 of \<^verbatim>\<open>app_unibe.py\<close>). An attribute the code tests with \<^verbatim>\<open>hasattr\<close>
  is in one of three states: the object has no such attribute (\<open>Missing\<close>), the attribute
  is there and holds \<^verbatim>\<open>None\<close> (\<open>Holds_None\<close>, what the vendor's objects hold for a field
  that was not set), or it holds a value of its kind.
\<close>

datatype 'a attr = Missing | Holds_None | Holds 'a

record retrieved =
  chunk_title :: "string attr"
  chunk_text :: "string attr"

record chunk =
  retrieved_context :: "retrieved attr"

record grounding =
  grounding_chunks :: "chunk list attr"

record candidate =
  grounding_metadata :: "grounding attr"

record genai_response =
  candidates :: "candidate list attr"

text \<open>\<^verbatim>\<open>str.strip()\<close>: white space off both ends.\<close>

definition py_strip :: "string \<Rightarrow> string" where
  "py_strip s = rev (dropWhile space_class (rev (dropWhile space_class s)))"

text \<open>
  \<^verbatim>\<open>sources_dict\<close> is a dictionary from titles to lists of snippets: a list of pairs with
  distinct keys, in the order of first insertion. A key is a title: a string, or \<open>None\<close>
  when the attribute \<^verbatim>\<open>title\<close> holds \<^verbatim>\<open>None\<close>. \<open>set_empty_if_absent\<close> is
  \<^verbatim>\<open>if title not in sources_dict: sources_dict[title] = []\<close>, and \<open>append_at\<close> is
  \<^verbatim>\<open>sources_dict[title].append(snippet)\<close>.
\<close>

definition set_empty_if_absent :: "'k \<Rightarrow> ('k \<times> string list) list \<Rightarrow> ('k \<times> string list) list" where
  "set_empty_if_absent k d = (if k \<in> set (map fst d) then d else d @ [(k, [])])"

definition append_at ::
  "'k \<Rightarrow> string \<Rightarrow> ('k \<times> string list) list \<Rightarrow> ('k \<times> string list) list" where
  "append_at k v d = map (\<lambda>e. if fst e = k then (fst e, snd e @ [v]) else e) d"

text \<open>
  The body of the loop over the chunks. \<^verbatim>\<open>hasattr(context, 'title')\<close> is false when
  \<^verbatim>\<open>context\<close> is \<^verbatim>\<open>None\<close>; \<^verbatim>\<open>hasattr(context, 'text') and context.text\<close> is true for a text
  that is not empty, and \<^verbatim>\<open>context.text.strip()\<close> is taken after that test.
\<close>

definition add_chunk ::
  "(string option \<times> string list) list \<Rightarrow> chunk \<Rightarrow> (string option \<times> string list) list" where
  "add_chunk sources_dict ch =
     (case retrieved_context ch of
        Missing \<Rightarrow> sources_dict
      | Holds_None \<Rightarrow> sources_dict
      | Holds ctx \<Rightarrow>
          (case chunk_title ctx of
             Missing \<Rightarrow> sources_dict
           | present \<Rightarrow>
               (let title = (case present of Holds t \<Rightarrow> Some t | other \<Rightarrow> None) in
                case chunk_text ctx of
                  Holds txt \<Rightarrow>
                    if txt \<noteq> []
                    then append_at title (py_strip txt) (set_empty_if_absent title sources_dict)
                    else set_empty_if_absent title sources_dict
                | other \<Rightarrow> set_empty_if_absent title sources_dict)))"

text \<open>
  The function. \<^verbatim>\<open>hasattr(x, 'a') and len(x.a) > 0\<close> is false for a missing attribute and
  for an empty list, and raises \<^verbatim>\<open>TypeError\<close> when the attribute holds \<^verbatim>\<open>None\<close>.
  \<^verbatim>\<open>hasattr(grounding, 'grounding_chunks')\<close> is false when \<^verbatim>\<open>grounding\<close> is \<^verbatim>\<open>None\<close>.
\<close>

definition format_grounding_chunks ::
  "genai_response \<Rightarrow> py_exn + (string option \<times> string list) list" where
  "format_grounding_chunks response =
     (case candidates response of
        Missing \<Rightarrow> Inr []
      | Holds_None \<Rightarrow> Inl TypeError
      | Holds cands \<Rightarrow>
          (case cands of
             [] \<Rightarrow> Inr []
           | cand # others \<Rightarrow>
               (case grounding_metadata cand of
                  Missing \<Rightarrow> Inr []
                | Holds_None \<Rightarrow> Inr []
                | Holds gr \<Rightarrow>
                    (case grounding_chunks gr of
                       Missing \<Rightarrow> Inr []
                     | Holds_None \<Rightarrow> Inl TypeError
                     | Holds chunks \<Rightarrow>
                         if length chunks > 0 then Inr (foldl add_chunk [] chunks)
                         else Inr []))))"

subsection \<open>The mapping in the specification's words\<close>

text \<open>
  The grounding-chunk list of a response (empty when there is none), the pairs of a title
  and an optional text its chunks carry, and the mapping of the specification: one entry
  per distinct title, in the order of first encounter, each with the stripped form of the
  texts of its chunks that are not empty, in the order of encounter. \<open>list_holds_none\<close>
  says that the list of candidates, or the list of chunks of the first candidate, is an
  attribute that holds \<^verbatim>\<open>None\<close>.
\<close>

definition response_chunks :: "genai_response \<Rightarrow> chunk list" where
  "response_chunks response =
     (case candidates response of
        Holds (cand # others) \<Rightarrow>
          (case grounding_metadata cand of
             Holds gr \<Rightarrow> (case grounding_chunks gr of Holds chunks \<Rightarrow> chunks | other \<Rightarrow> [])
           | other \<Rightarrow> [])
      | other \<Rightarrow> [])"

definition list_holds_none :: "genai_response \<Rightarrow> bool" where
  "list_holds_none response =
     (case candidates response of
        Holds_None \<Rightarrow> True
      | Holds (cand # others) \<Rightarrow>
          (case grounding_metadata cand of
             Holds gr \<Rightarrow> (case grounding_chunks gr of Holds_None \<Rightarrow> True | other \<Rightarrow> False)
           | other \<Rightarrow> False)
      | other \<Rightarrow> False)"

definition chunk_entry :: "chunk \<Rightarrow> (string option \<times> string option) option" where
  "chunk_entry ch =
     (case retrieved_context ch of
        Holds ctx \<Rightarrow>
          (case chunk_title ctx of
             Missing \<Rightarrow> None
           | Holds_None \<Rightarrow> Some (None, case chunk_text ctx of Holds s \<Rightarrow> Some s | other \<Rightarrow> None)
           | Holds t \<Rightarrow> Some (Some t, case chunk_text ctx of Holds s \<Rightarrow> Some s | other \<Rightarrow> None))
      | other \<Rightarrow> None)"

definition entries :: "genai_response \<Rightarrow> (string option \<times> string option) list" where
  "entries response = List.map_filter chunk_entry (response_chunks response)"

fun first_occurrences :: "'a list \<Rightarrow> 'a list" where
  "first_occurrences [] = []"
| "first_occurrences (x # xs) = x # removeAll x (first_occurrences xs)"

definition snippets_of :: "'k \<Rightarrow> ('k \<times> string option) list \<Rightarrow> string list" where
  "snippets_of t es =
     map py_strip
       (List.map_filter (\<lambda>e. if fst e = t then (case snd e of None \<Rightarrow> None
                                                 | Some s \<Rightarrow> if s \<noteq> [] then Some s else None)
                               else None) es)"

definition citations :: "('k \<times> string option) list \<Rightarrow> ('k \<times> string list) list" where
  "citations es = map (\<lambda>t. (t, snippets_of t es)) (first_occurrences (map fst es))"

section \<open>Title resolver: \<^verbatim>\<open>get_law_name\<close>\<close>

text \<open>
  \<^verbatim>\<open>get_law_name\<close> (lines 40-56 of \<^verbatim>\<open>app.py\<close>, 62-78 of \<^verbatim>\<open>app_unibe.py\<close>). The cache of
  \<^verbatim>\<open>st.cache_data\<close> is left out: it stores what the function returns. The request is
  \<^verbatim>\<open>requests.get(url, timeout=5)\<close>.
\<close>

definition law_request :: "string \<Rightarrow> request" where
  "law_request bsg_number =
     \<lparr>http_method = ''GET'',
      url = ''https://www.belex.sites.be.ch/api/de/texts_of_law/'' @ bsg_number,
      headers = [],
      params = [],
      timeout = Some 5\<rparr>"

text \<open>
  A value inside an f-string: a \<^verbatim>\<open>str\<close> stands for itself; any other value is rendered by
  Python's \<^verbatim>\<open>str\<close>, which is not code of this repository and is the parameter \<open>str_of\<close>.
\<close>

definition py_format :: "(json \<Rightarrow> string) \<Rightarrow> json \<Rightarrow> string" where
  "py_format str_of v = (case v of JStr s \<Rightarrow> s | _ \<Rightarrow> str_of v)"

text \<open>Sequencing of statements that may raise.\<close>

definition on_value :: "py_exn + 'a \<Rightarrow> ('a \<Rightarrow> py_exn + 'b) \<Rightarrow> py_exn + 'b" where
  "on_value r f = (case r of Inl e \<Rightarrow> Inl e | Inr v \<Rightarrow> f v)"

text \<open>
  The \<^verbatim>\<open>try\<close> block: \<open>Inl e\<close> when it raises \<open>e\<close>, \<open>Inr (Some v)\<close> when it returns \<open>v\<close>, and
  \<open>Inr None\<close> when it ends without a \<^verbatim>\<open>return\<close>.
\<close>

definition get_law_name_try ::
  "(json \<Rightarrow> string) \<Rightarrow> (request \<Rightarrow> http_outcome) \<Rightarrow> string \<Rightarrow> py_exn + json option" where
  "get_law_name_try str_of net bsg_number =
     (case net (law_request bsg_number) of
        Raised e \<Rightarrow> Inl e
      | Returned response \<Rightarrow>
          if status_code response = 200 then
            (case json_body response of
               None \<Rightarrow> Inl JSONDecodeError
             | Some data \<Rightarrow>
                 on_value (dict_get data ''text_of_law'' (JObj [])) (\<lambda>law.
                 on_value (dict_get law ''title'' (JStr [])) (\<lambda>title.
                 on_value (dict_get data ''text_of_law'' (JObj [])) (\<lambda>law'.
                 on_value (dict_get law' ''abbreviation'' (JStr [])) (\<lambda>abbreviation.
                   if truthy title \<and> truthy abbreviation
                   then Inr (Some (JStr (py_format str_of title @ '' ('' @
                                         py_format str_of abbreviation @ '')'')))
                   else if truthy title then Inr (Some title)
                   else Inr None)))))
          else Inr None)"

text \<open>
  \<^verbatim>\<open>except Exception: pass\<close>, then \<^verbatim>\<open>return None\<close>. The result is \<open>Inr\<close> of the value
  returned (\<open>None\<close> for Python's \<^verbatim>\<open>None\<close>); \<open>Inl\<close> would be an exception reaching the caller.
\<close>

definition get_law_name ::
  "(json \<Rightarrow> string) \<Rightarrow> (request \<Rightarrow> http_outcome) \<Rightarrow> string \<Rightarrow> py_exn + json option" where
  "get_law_name str_of net bsg_number =
     (case get_law_name_try str_of net bsg_number of
        Inl e \<Rightarrow> Inr None
      | Inr v \<Rightarrow> Inr v)"

text \<open>
  The title and the abbreviation of a response in the specification's words: the two
  fields of \<^verbatim>\<open>text_of_law\<close> in the body of a response with status 200, a missing field
  being the empty string and a missing \<^verbatim>\<open>text_of_law\<close> the empty object. There are none
  when the request raises, the status is not 200, the body does not decode, or the body
  or \<^verbatim>\<open>text_of_law\<close> is not an object.
\<close>

definition field_or_empty :: "(string \<times> json) list \<Rightarrow> string \<Rightarrow> json" where
  "field_or_empty kvs k = (case map_of kvs k of None \<Rightarrow> JStr [] | Some v \<Rightarrow> v)"

definition title_and_abbreviation :: "http_outcome \<Rightarrow> (json \<times> json) option" where
  "title_and_abbreviation out =
     (case out of
        Raised e \<Rightarrow> None
      | Returned r \<Rightarrow>
          if status_code r \<noteq> 200 then None
          else (case json_body r of
                  Some (JObj kvs) \<Rightarrow>
                    (case map_of kvs ''text_of_law'' of
                       None \<Rightarrow> Some (JStr [], JStr [])
                     | Some (JObj law) \<Rightarrow>
                         Some (field_or_empty law ''title'', field_or_empty law ''abbreviation'')
                     | Some other \<Rightarrow> None)
                | other \<Rightarrow> None))"

section \<open>Catalog listing: \<^verbatim>\<open>list_documents\<close>\<close>

text \<open>
  \<^verbatim>\<open>list_documents\<close> (lines 90-123 of \<^verbatim>\<open>app.py\<close>, 112-145 of \<^verbatim>\<open>app_unibe.py\<close>). The page
  token is a decoded JSON value, \<open>JNull\<close> for Python's \<^verbatim>\<open>None\<close>.
\<close>

definition list_request :: "string \<Rightarrow> string \<Rightarrow> json \<Rightarrow> request" where
  "list_request api_key filestore_id page_token =
     \<lparr>http_method = ''GET'',
      url = documents_base @ filestore_id @ ''/documents'',
      headers = [(''x-goog-api-key'', api_key)],
      params = (''pageSize'', JNum 20) #
               (if truthy page_token then [(''pageToken'', page_token)] else []),
      timeout = None\<rparr>"

text \<open>
  \<^verbatim>\<open>"documents" in data\<close> followed by \<^verbatim>\<open>data["documents"]\<close>: the value under the key, if
  the body is an object that has it. A list or a string supports \<^verbatim>\<open>in\<close> but not the
  subscript by a string; the other values do not support \<^verbatim>\<open>in\<close>.
\<close>

definition is_infix :: "string \<Rightarrow> string \<Rightarrow> bool" where
  "is_infix p s = list_ex (\<lambda>i. take (length p) (drop i s) = p) [0 ..< Suc (length s)]"

definition documents_entry :: "json \<Rightarrow> py_exn + json option" where
  "documents_entry data =
     (case data of
        JObj kvs \<Rightarrow> Inr (map_of kvs ''documents'')
      | JArr xs \<Rightarrow> if JStr ''documents'' \<in> set xs then Inl TypeError else Inr None
      | JStr s \<Rightarrow> if is_infix ''documents'' s then Inl TypeError else Inr None
      | other \<Rightarrow> Inl TypeError)"

text \<open>
  \<^verbatim>\<open>documents.extend(v)\<close>: the elements of a list, the keys of an object, the characters
  of a string; any other value is not iterable.
\<close>

definition py_extend :: "json list \<Rightarrow> json \<Rightarrow> py_exn + json list" where
  "py_extend documents v =
     (case v of
        JArr xs \<Rightarrow> Inr (documents @ xs)
      | JObj kvs \<Rightarrow> Inr (documents @ map (\<lambda>kv. JStr (fst kv)) kvs)
      | JStr s \<Rightarrow> Inr (documents @ map (\<lambda>c. JStr [c]) s)
      | other \<Rightarrow> Inl TypeError)"

text \<open>
  The network is the sequence of what the successive calls of \<^verbatim>\<open>requests.get\<close> do. The
  loop takes one outcome per iteration; when the sequence ends before the loop does, the
  next request has no outcome and the function has no result (\<open>None\<close>).

  The state of the loop is \<^verbatim>\<open>page_token\<close>, \<^verbatim>\<open>documents\<close> and the requests sent so far. The
  loop ends by raising (\<open>Inl\<close>) or by a \<^verbatim>\<open>break\<close> with the documents and the messages
  shown.
\<close>

fun list_documents_loop ::
  "string \<Rightarrow> string \<Rightarrow> http_outcome list \<Rightarrow> json \<Rightarrow> json list \<Rightarrow> request list \<Rightarrow>
   ((py_exn + json list \<times> ui_event list) \<times> request list) option" where
  "list_documents_loop api_key filestore_id [] page_token documents sent = None"
| "list_documents_loop api_key filestore_id (out # net) page_token documents sent =
     (let sent' = sent @ [list_request api_key filestore_id page_token] in
      case out of
        Raised e \<Rightarrow> Some (Inl e, sent')
      | Returned response \<Rightarrow>
          if status_code response = 200 then
            (case json_body response of
               None \<Rightarrow> Some (Inl JSONDecodeError, sent')
             | Some data \<Rightarrow>
                 (case on_value (documents_entry data)
                         (\<lambda>entry. case entry of None \<Rightarrow> Inr documents
                                   | Some v \<Rightarrow> py_extend documents v) of
                    Inl e \<Rightarrow> Some (Inl e, sent')
                  | Inr documents' \<Rightarrow>
                      (case dict_get data ''nextPageToken'' JNull of
                         Inl e \<Rightarrow> Some (Inl e, sent')
                       | Inr page_token' \<Rightarrow>
                           if \<not> truthy page_token' then Some (Inr (documents', []), sent')
                           else list_documents_loop api_key filestore_id net
                                  page_token' documents' sent')))
          else Some (Inr (documents,
                          [Error_status (status_code response),
                           Error_body (body_text response)]), sent'))"

text \<open>
  The function: the documents returned, the messages shown and the requests sent.
  \<^verbatim>\<open>except Exception as e\<close> shows the exception and returns the empty list.
\<close>

definition list_documents ::
  "http_outcome list \<Rightarrow> string \<Rightarrow> string \<Rightarrow> (json list \<times> ui_event list \<times> request list) option" where
  "list_documents net api_key filestore_id =
     (case list_documents_loop api_key filestore_id net JNull [] [] of
        None \<Rightarrow> None
      | Some (Inl e, sent) \<Rightarrow> Some ([], [Error_exception e], sent)
      | Some (Inr (documents, shown), sent) \<Rightarrow> Some (documents, shown, sent))"

text \<open>
  A page in the specification's words: a response with status 200 whose body is an object;
  its document records are the elements of its \<^verbatim>\<open>documents\<close> list (none when the key is
  missing), and its next-page token is the value of \<^verbatim>\<open>nextPageToken\<close> (\<open>JNull\<close> when the key
  is missing).
\<close>

definition page_records :: "http_outcome \<Rightarrow> json list option" where
  "page_records out =
     (case out of
        Raised e \<Rightarrow> None
      | Returned r \<Rightarrow>
          if status_code r \<noteq> 200 then None
          else (case json_body r of
                  Some (JObj kvs) \<Rightarrow>
                    (case map_of kvs ''documents'' of
                       None \<Rightarrow> Some []
                     | Some (JArr xs) \<Rightarrow> Some xs
                     | Some other \<Rightarrow> None)
                | other \<Rightarrow> None))"

definition next_page_token :: "http_outcome \<Rightarrow> json" where
  "next_page_token out =
     (case out of
        Returned r \<Rightarrow>
          (case json_body r of
             Some (JObj kvs) \<Rightarrow> (case map_of kvs ''nextPageToken'' of None \<Rightarrow> JNull | Some v \<Rightarrow> v)
           | other \<Rightarrow> JNull)
      | Raised e \<Rightarrow> JNull)"

definition is_page :: "http_outcome \<Rightarrow> bool" where
  "is_page out = (page_records out \<noteq> None)"

definition records_of :: "http_outcome \<Rightarrow> json list" where
  "records_of out = (case page_records out of None \<Rightarrow> [] | Some xs \<Rightarrow> xs)"

definition failed_status :: "http_outcome \<Rightarrow> bool" where
  "failed_status out = (case out of Raised e \<Rightarrow> False | Returned r \<Rightarrow> status_code r \<noteq> 200)"

definition status_messages :: "http_outcome \<Rightarrow> ui_event list" where
  "status_messages out =
     (case out of
        Raised e \<Rightarrow> []
      | Returned r \<Rightarrow> [Error_status (status_code r), Error_body (body_text r)])"

section \<open>Catalog upload: \<^verbatim>\<open>upload_file_to_filestore\<close> and the upload form\<close>

text \<open>
  The file of \<^verbatim>\<open>st.file_uploader\<close>: \<^verbatim>\<open>name\<close>, \<^verbatim>\<open>type\<close> and \<^verbatim>\<open>getvalue()\<close>.
\<close>

record uploaded_file =
  file_name :: string
  file_type :: string
  file_value :: string

text \<open>
  The arguments of the vendor's \<^verbatim>\<open>upload_to_file_search_store\<close>. \<^verbatim>\<open>app.py\<close> passes
  \<^verbatim>\<open>file_path\<close>, \<^verbatim>\<open>mime_type\<close> and \<^verbatim>\<open>display_name\<close>; \<^verbatim>\<open>app_unibe.py\<close> passes \<^verbatim>\<open>file\<close> and a
  \<^verbatim>\<open>config\<close> with \<^verbatim>\<open>display_name\<close> and \<^verbatim>\<open>custom_metadata\<close>.
\<close>

record upload_call =
  file_search_store_name :: string
  file_path :: string
  mime_type :: "string option"
  shown_name :: string
  custom_metadata :: "(string \<times> string) list"

text \<open>
  What the function does besides returning: messages shown, the temporary file created
  and removed, the vendor called.
\<close>

datatype effect =
    Shown ui_event
  | Temp_created string
  | Vendor_called upload_call
  | Temp_removed string

text \<open>
  What is not code of this repository: the suffix \<^verbatim>\<open>pathlib\<close> computes; the temporary file
  \<^verbatim>\<open>tempfile.NamedTemporaryFile(delete=False, suffix=...)\<close> creates (its path, or an
  exception); \<^verbatim>\<open>tmp_file.write(uploaded_file.getvalue())\<close> and the closing of the file at
  the end of the \<^verbatim>\<open>with\<close> block (\<open>None\<close>, or the exception raised, a full disk for one);
  the vendor's upload (its response, or an exception); \<^verbatim>\<open>os.unlink\<close> (\<open>None\<close>, or the
  exception raised); the truth value of the vendor's response; and the clock.
\<close>

record 'r upload_env =
  path_suffix :: "string \<Rightarrow> string"
  named_temporary_file :: "string \<Rightarrow> py_exn + string"
  write_temp :: "string \<Rightarrow> string \<Rightarrow> py_exn option"
  vendor_upload :: "upload_call \<Rightarrow> py_exn + 'r"
  unlink :: "string \<Rightarrow> py_exn option"
  truth_value :: "'r \<Rightarrow> bool"
  now_isoformat :: string

text \<open>
  The names bound at module level: the imports of lines 6-12 of \<^verbatim>\<open>app.py\<close> (7-14 of
  \<^verbatim>\<open>app_unibe.py\<close>, where line 8 is \<^verbatim>\<open>from pathlib import Path\<close>), the constant and the
  functions defined. A name in a function body is looked up among the locals, then the
  module's names, then the builtins (\<^verbatim>\<open>Path\<close> is not a builtin); a name found nowhere
  raises \<^verbatim>\<open>NameError\<close>.
\<close>

definition app_module_names :: "string list" where
  "app_module_names =
     [''re'', ''requests'', ''st'', ''BELEXSearchEngine'', ''genai'', ''types'',
      ''load_config'', ''extract_bsg_number'', ''get_law_name'', ''format_grounding_chunks'',
      ''list_documents'', ''upload_file_to_filestore'', ''delete_document'', ''main'']"

definition unibe_module_names :: "string list" where
  "unibe_module_names =
     [''re'', ''Path'', ''requests'', ''st'', ''BELEXSearchEngine'', ''genai'', ''types'',
      ''DEFAULT_SYSTEM_PROMPT'',
      ''load_config'', ''extract_bsg_number'', ''get_law_name'', ''format_grounding_chunks'',
      ''list_documents'', ''upload_file_to_filestore'', ''delete_document'',
      ''search_with_custom_prompt'', ''main'']"

definition upload_locals :: "string list" where
  "upload_locals =
     [''client'', ''filestore_id'', ''uploaded_file'', ''display_name'', ''tempfile'', ''os'']"

definition resolve :: "string list \<Rightarrow> string list \<Rightarrow> string \<Rightarrow> py_exn + unit" where
  "resolve locals module_names n =
     (if n \<in> set locals \<or> n \<in> set module_names then Inr () else Inl (NameError n))"

text \<open>\<^verbatim>\<open>display_name or uploaded_file.name\<close>\<close>

definition name_shown :: "string option \<Rightarrow> uploaded_file \<Rightarrow> string" where
  "name_shown display_name uploaded_file =
     (case display_name of
        None \<Rightarrow> file_name uploaded_file
      | Some s \<Rightarrow> if s \<noteq> [] then s else file_name uploaded_file)"

definition app_call ::
  "'r upload_env \<Rightarrow> string \<Rightarrow> string \<Rightarrow> uploaded_file \<Rightarrow> string option \<Rightarrow> upload_call" where
  "app_call env filestore_id tmp_path uploaded_file display_name =
     \<lparr>file_search_store_name = filestore_id,
      file_path = tmp_path,
      mime_type = Some (file_type uploaded_file),
      shown_name = name_shown display_name uploaded_file,
      custom_metadata = []\<rparr>"

definition unibe_call ::
  "'r upload_env \<Rightarrow> string \<Rightarrow> string \<Rightarrow> uploaded_file \<Rightarrow> string option \<Rightarrow> upload_call" where
  "unibe_call env filestore_id tmp_path uploaded_file display_name =
     \<lparr>file_search_store_name = filestore_id,
      file_path = tmp_path,
      mime_type = None,
      shown_name = name_shown display_name uploaded_file,
      custom_metadata = [(''uploaded_via'', ''webapp''),
                         (''upload_timestamp'', now_isoformat env)]\<rparr>"

text \<open>
  The body both variants share (lines 126-154 of \<^verbatim>\<open>app.py\<close>, 148-187 of \<^verbatim>\<open>app_unibe.py\<close>).
  The file system is the set of the paths that exist. The result is the value returned
  (\<open>None\<close> for Python's \<^verbatim>\<open>None\<close>), the file system afterwards, and the effects in order.

  The first thing evaluated that can fail is the argument \<^verbatim>\<open>Path(uploaded_file.name).suffix\<close>
  of \<^verbatim>\<open>NamedTemporaryFile\<close>. The \<^verbatim>\<open>with\<close> block creates the file and writes it; it stands
  before the inner \<^verbatim>\<open>try\<close>, so an exception there goes to the outer handler and the file
  stays. The inner \<^verbatim>\<open>try\<close> calls the vendor; its \<^verbatim>\<open>finally\<close> unlinks the file if it exists,
  whether the call returned or raised, and an exception of \<^verbatim>\<open>os.unlink\<close> replaces the
  result of the \<^verbatim>\<open>try\<close>. The outer \<^verbatim>\<open>except Exception\<close> shows the exception and returns
  \<^verbatim>\<open>None\<close>.
\<close>

definition upload_file_to_filestore ::
  "string list \<Rightarrow>
   ('r upload_env \<Rightarrow> string \<Rightarrow> string \<Rightarrow> uploaded_file \<Rightarrow> string option \<Rightarrow> upload_call) \<Rightarrow>
   'r upload_env \<Rightarrow> string set \<Rightarrow> string \<Rightarrow> uploaded_file \<Rightarrow> string option \<Rightarrow>
   'r option \<times> string set \<times> effect list" where
  "upload_file_to_filestore module_names make_call env fs filestore_id uploaded_file
     display_name =
     (case resolve upload_locals module_names ''Path'' of
        Inl e \<Rightarrow> (None, fs, [Shown (Error_exception e)])
      | Inr u \<Rightarrow>
          (case named_temporary_file env (path_suffix env (file_name uploaded_file)) of
             Inl e \<Rightarrow> (None, fs, [Shown (Error_exception e)])
           | Inr tmp_path \<Rightarrow>
               (let fs1 = insert tmp_path fs in
                case write_temp env tmp_path (file_value uploaded_file) of
                  Some e \<Rightarrow> (None, fs1, [Temp_created tmp_path, Shown (Error_exception e)])
                | None \<Rightarrow>
                    (let call = make_call env filestore_id tmp_path uploaded_file display_name;
                         outcome = vendor_upload env call;
                         called = [Temp_created tmp_path, Vendor_called call]
                     in if tmp_path \<in> fs1 then
                          (case unlink env tmp_path of
                             Some e \<Rightarrow> (None, fs1, called @ [Shown (Error_exception e)])
                           | None \<Rightarrow>
                               (case outcome of
                                  Inr upload_response \<Rightarrow>
                                    (Some upload_response, fs1 - {tmp_path},
                                     called @ [Temp_removed tmp_path])
                                | Inl e \<Rightarrow>
                                    (None, fs1 - {tmp_path},
                                     called @ [Temp_removed tmp_path,
                                               Shown (Error_exception e)])))
                        else
                          (case outcome of
                             Inr upload_response \<Rightarrow> (Some upload_response, fs1, called)
                           | Inl e \<Rightarrow> (None, fs1, called @ [Shown (Error_exception e)]))))))"

definition app_upload_file_to_filestore ::
  "'r upload_env \<Rightarrow> string set \<Rightarrow> string \<Rightarrow> uploaded_file \<Rightarrow> string option \<Rightarrow>
   'r option \<times> string set \<times> effect list" where
  "app_upload_file_to_filestore = upload_file_to_filestore app_module_names app_call"

definition unibe_upload_file_to_filestore ::
  "'r upload_env \<Rightarrow> string set \<Rightarrow> string \<Rightarrow> uploaded_file \<Rightarrow> string option \<Rightarrow>
   'r option \<times> string set \<times> effect list" where
  "unibe_upload_file_to_filestore = upload_file_to_filestore unibe_module_names unibe_call"

text \<open>
  The upload form of \<^verbatim>\<open>main\<close> (lines 604-625 of \<^verbatim>\<open>app.py\<close>, 834-855 of \<^verbatim>\<open>app_unibe.py\<close>), given
  the file chosen, if any, and whether the button is pressed in this run. \<open>upload\<close> is the
  variant's \<^verbatim>\<open>upload_file_to_filestore\<close>. \<^verbatim>\<open>if result:\<close> is the truth value of what it
  returns, false for \<^verbatim>\<open>None\<close>.

  \<^verbatim>\<open>file_size_mb = len(uploaded_file.getvalue()) / (1024 * 1024)\<close> is a real number here.
  The float of the source compares with 100 as the real number does: dividing an integer
  below \<open>2 ^ 53\<close> by \<open>2 ^ 20\<close> is exact, and a larger quotient is far above 100, also after
  rounding.
\<close>

definition upload_form ::
  "('r upload_env \<Rightarrow> string set \<Rightarrow> string \<Rightarrow> uploaded_file \<Rightarrow> string option \<Rightarrow>
      'r option \<times> string set \<times> effect list) \<Rightarrow>
   'r upload_env \<Rightarrow> string set \<Rightarrow> string \<Rightarrow> uploaded_file option \<Rightarrow> string option \<Rightarrow> bool \<Rightarrow>
   string set \<times> effect list" where
  "upload_form upload env fs filestore_id chosen display_name pressed =
     (case chosen of
        None \<Rightarrow> (fs, [])
      | Some uploaded_file \<Rightarrow>
          (let file_size_mb = real (length (file_value uploaded_file)) / (1024 * 1024);
               info = Shown (Info_file_size (length (file_value uploaded_file)))
           in if file_size_mb > 100 then (fs, [info, Shown Error_file_too_large])
              else if pressed then
                (case upload env fs filestore_id uploaded_file display_name of
                   (result, fs', trace) \<Rightarrow>
                     (fs', [info, Shown Button_upload] @ trace @
                           [Shown (case result of
                                     None \<Rightarrow> Error_upload
                                   | Some v \<Rightarrow> if truth_value env v then Success_upload
                                               else Error_upload)]))
              else (fs, [info, Shown Button_upload])))"

section \<open>Catalog delete: results\<close>

lemma unibe_delete_document_status:
  "net (delete_request k d) = Returned r \<Longrightarrow>
   unibe_delete_document net k d =
     (if status_code r = 200 \<or> status_code r = 204 then (True, [])
      else (False, [Error_status (status_code r), Error_body (body_text r)]))"
  by (simp add: unibe_delete_document_def)

lemma app_delete_document_status:
  "net (delete_request k d) = Returned r \<Longrightarrow>
   fst (app_delete_document net k d) = (status_code r = 200)"
  by (simp add: app_delete_document_def)

text \<open>
  Claim C1. The claim: for every status the delete endpoint returns, \<^verbatim>\<open>delete_document\<close>
  reports success exactly for 200 and 204, and otherwise reports failure with the status
  and the body shown. The university variant does so
  (\<open>unibe_delete_document_status\<close>). The public variant does not: a response with status
  204 makes it return \<open>False\<close> and show the status 204 and the body as an error.
\<close>

theorem app_delete_document_204_fails:
  "app_delete_document
     (\<lambda>q. Returned \<lparr>status_code = 204, body_text = '''', json_body = None\<rparr>)
     ''key'' ''fileSearchStores/s/documents/d''
   = (False, [Error_status 204, Error_body ''''])"
  by (simp add: app_delete_document_def)

section \<open>Registry numbers: results\<close>

subsection \<open>The matcher on the pattern\<close>

lemma later_group_None [simp]: "later_group None m = m"
  by (cases m) (simp add: later_group_def split: option.splits)

lemma map_later_group_None [simp]: "map (later_group None) ms = ms"
  by (induction ms) simp_all

lemma rmatch_Seq_Chr:
  "rmatch (Seq (Chr c) r) s = (case s of [] \<Rightarrow> [] | x # xs \<Rightarrow> if x = c then rmatch r xs else [])"
  by (cases s) simp_all

lemma rmatch_Plus_Cls:
  "rmatch (Plus (Cls p)) s =
     (case s of [] \<Rightarrow> [] | x # xs \<Rightarrow> if p x then rmatch (Plus (Cls p)) xs @ [(None, xs)] else [])"
  by (cases s) simp_all

lemma rmatch_Plus_Cls_Cons:
  "p x \<Longrightarrow> rmatch (Plus (Cls p)) (x # xs) = rmatch (Plus (Cls p)) xs @ [(None, xs)]"
  by (simp add: rmatch_Plus_Cls[of p "x # xs"] del: rmatch.simps)

lemma rmatch_Plus_Cls_fail:
  "takeWhile p s = [] \<Longrightarrow> rmatch (Plus (Cls p)) s = []"
  by (cases s) (auto split: if_splits)

lemma rmatch_Plus_Cls_first:
  "takeWhile p s \<noteq> [] \<Longrightarrow> \<exists>ms. rmatch (Plus (Cls p)) s = (None, dropWhile p s) # ms"
proof (induction s)
  case Nil
  then show ?case by simp
next
  case (Cons x xs)
  from Cons.prems have px: "p x" by (simp split: if_splits)
  show ?case
  proof (cases "takeWhile p xs = []")
    case True
    then have "rmatch (Plus (Cls p)) xs = []" by (rule rmatch_Plus_Cls_fail)
    moreover from True have "dropWhile p xs = xs"
      by (metis append_Nil takeWhile_dropWhile_id)
    ultimately show ?thesis using px
      by (simp add: rmatch_Plus_Cls_Cons del: rmatch.simps)
  next
    case False
    then obtain ms where "rmatch (Plus (Cls p)) xs = (None, dropWhile p xs) # ms"
      using Cons.IH by blast
    then show ?thesis using px
      by (simp add: rmatch_Plus_Cls_Cons del: rmatch.simps)
  qed
qed

lemma first_match_Plus_Cls:
  "first_match (Plus (Cls p)) s =
     (if takeWhile p s = [] then None else Some (None, dropWhile p s))"
proof (cases "takeWhile p s = []")
  case True
  then show ?thesis by (simp add: first_match_def rmatch_Plus_Cls_fail del: rmatch.simps)
next
  case False
  then obtain ms where "rmatch (Plus (Cls p)) s = (None, dropWhile p s) # ms"
    using rmatch_Plus_Cls_first by blast
  then show ?thesis using False by (simp add: first_match_def del: rmatch.simps)
qed

lemma first_match_Seq_Chr:
  "first_match (Seq (Chr c) r) s =
     (case s of [] \<Rightarrow> None | x # xs \<Rightarrow> if x = c then first_match r xs else None)"
  by (cases s) (simp_all add: first_match_def rmatch_Seq_Chr del: rmatch.simps)

lemma first_match_Opt:
  "first_match (Opt r) s = Some (case first_match r s of None \<Rightarrow> (None, s) | Some m \<Rightarrow> m)"
  by (simp add: first_match_def split: list.splits)

text \<open>A sequence whose second part cannot fail takes the first result of its first part.\<close>

lemma first_match_Seq_total:
  assumes "\<And>t. rmatch r2 t \<noteq> []"
  shows "first_match (Seq r1 r2) s =
     (case first_match r1 s of None \<Rightarrow> None
      | Some m1 \<Rightarrow> map_option (later_group (fst m1)) (first_match r2 (snd m1)))"
proof (cases "rmatch r1 s")
  case Nil
  then show ?thesis by (simp add: first_match_def)
next
  case (Cons m1 ms)
  obtain m2 ms2 where "rmatch r2 (snd m1) = m2 # ms2"
    using assms[of "snd m1"] by (cases "rmatch r2 (snd m1)") auto
  with Cons show ?thesis by (simp add: first_match_def)
qed

lemma first_match_Grp:
  "first_match (Grp r) s =
     map_option (\<lambda>m. (Some (take (length s - length (snd m)) s), snd m)) (first_match r s)"
  by (simp add: first_match_def split: list.splits)

text \<open>The optional separator: a separator character is never a number character, so
  skipping it is the only way on when it is there.\<close>

lemma first_match_Seq_Opt_Cls:
  assumes "\<And>x xs. q x \<Longrightarrow> rmatch r (x # xs) = []"
  shows "first_match (Seq (Opt (Cls q)) r) s =
     (case s of [] \<Rightarrow> first_match r []
      | x # xs \<Rightarrow> if q x then first_match r xs else first_match r s)"
proof (cases s)
  case Nil
  then show ?thesis by (simp add: first_match_def)
next
  case (Cons x xs)
  then show ?thesis using assms[of x xs]
    by (simp add: first_match_def)
qed


lemma separator_not_number: "separator_class x \<Longrightarrow> \<not> number_class x"
  by (auto simp: separator_class_def number_class_def space_class_def digit_class_def)

lemma take_dash_tail: "take (length (dash_tail t)) t = dash_tail t"
  by (cases t) (simp_all add: dash_tail_def takeWhile_eq_take[symmetric])

lemma length_dash_tail: "length (dash_tail t) \<le> length t"
  by (cases t) (simp_all add: dash_tail_def length_takeWhile_le)

lemma first_match_Opt_dash:
  "first_match (Opt dash_part) t = Some (None, drop (length (dash_tail t)) t)"
proof (cases t)
  case Nil
  then show ?thesis
    by (simp add: first_match_Opt first_match_Seq_Chr dash_tail_def del: rmatch.simps)
next
  case (Cons x u)
  then show ?thesis
    by (simp add: first_match_Opt first_match_Seq_Chr first_match_Plus_Cls dash_tail_def
        dropWhile_eq_drop del: rmatch.simps)
qed

lemma first_match_number_part:
  "first_match number_part s =
     (if takeWhile number_class s = [] then None
      else Some (None, drop (length (dash_tail (dropWhile number_class s)))
                         (dropWhile number_class s)))"
proof -
  have tot: "\<And>t. rmatch (Opt dash_part) t \<noteq> []" by simp
  show ?thesis
    by (simp add: first_match_Seq_total[OF tot] first_match_Plus_Cls first_match_Opt_dash
        del: rmatch.simps)
qed

lemma first_match_group:
  "map_option fst (first_match (Grp number_part) s) = map_option Some (number_at s)"
proof (cases "takeWhile number_class s = []")
  case True
  then show ?thesis
    by (simp add: first_match_Grp first_match_number_part number_at_def del: rmatch.simps)
next
  case False
  let ?tw = "takeWhile number_class s" and ?dw = "dropWhile number_class s"
  let ?k = "length (dash_tail ?dw)"
  have s: "s = ?tw @ ?dw" by simp
  have k: "?k \<le> length ?dw" by (rule length_dash_tail)
  have "length s = length ?tw + length ?dw"
    by (metis length_append takeWhile_dropWhile_id)
  with k have "length s - length (drop ?k ?dw) = length ?tw + ?k" by simp
  moreover have "take (length ?tw + ?k) s = ?tw @ dash_tail ?dw"
    by (subst s, simp add: take_dash_tail del: takeWhile_dropWhile_id)
  ultimately show ?thesis using False
    by (simp add: first_match_Grp first_match_number_part number_at_def del: rmatch.simps)
qed

lemma rmatch_group_separator:
  "separator_class x \<Longrightarrow> rmatch (Grp number_part) (x # xs) = []"
  by (simp add: separator_not_number)

lemma number_at_Nil: "number_at [] = None"
  by (simp add: number_at_def)

lemma first_match_bsg_pattern:
  "map_option fst (first_match bsg_pattern s) = map_option Some (match_at s)"
proof -
  have sk: "first_match (Seq (Opt (Cls separator_class)) (Grp number_part)) t =
     (case t of [] \<Rightarrow> first_match (Grp number_part) []
      | x # xs \<Rightarrow> if separator_class x then first_match (Grp number_part) xs
                  else first_match (Grp number_part) t)" for t
    by (rule first_match_Seq_Opt_Cls) (rule rmatch_group_separator)
  show ?thesis
  proof (cases "take 3 s = ''BSG''")
    case True
    then obtain t where s: "s = CHR ''B'' # CHR ''S'' # CHR ''G'' # t"
      by (cases s; cases "tl s"; cases "tl (tl s)") auto
    show ?thesis
      unfolding s bsg_pattern_def
      using first_match_group[of "[]"] first_match_group[of t] first_match_group[of "tl t"]
      by (cases t) (simp_all add: first_match_Seq_Chr sk match_at_def number_at_Nil
          del: rmatch.simps)
  next
    case False
    then have "first_match bsg_pattern s = None"
      unfolding bsg_pattern_def
      by (cases s; cases "tl s"; cases "tl (tl s)")
         (auto simp add: first_match_Seq_Chr simp del: rmatch.simps)
    with False show ?thesis by (simp add: match_at_def)
  qed
qed

lemma re_search_first_match:
  "re_search r s =
     (case first_match r s of Some m \<Rightarrow> Some m
      | None \<Rightarrow> (case s of [] \<Rightarrow> None | c # cs \<Rightarrow> re_search r cs))"
  by (cases s) (simp_all add: first_match_def split: list.splits del: rmatch.simps)

lemma extract_bsg_number_Nil: "extract_bsg_number [] = None"
  using first_match_bsg_pattern[of "[]"]
  by (simp add: extract_bsg_number_def re_search_first_match[of _ "[]"] match_at_def
      split: option.splits del: rmatch.simps re_search.simps)

lemma extract_bsg_number_Cons:
  "extract_bsg_number (c # cs) =
     (case match_at (c # cs) of Some r \<Rightarrow> Some r | None \<Rightarrow> extract_bsg_number cs)"
  using first_match_bsg_pattern[of "c # cs"]
  by (cases "first_match bsg_pattern (c # cs)"; cases "match_at (c # cs)")
     (auto simp add: extract_bsg_number_def re_search_first_match[of _ "c # cs"]
      simp del: rmatch.simps re_search.simps)


subsection \<open>The match and the specification\<close>

lemma dash_not_number: "\<not> number_class CHR ''-''"
  by (simp add: number_class_def digit_class_def)

lemma dash_tail_cases:
  "dash_tail t = [] \<or> (\<exists>es. dash_tail t = CHR ''-'' # es \<and> es \<noteq> [] \<and> list_all digit_class es)"
  by (cases t) (auto simp: dash_tail_def list_all_iff dest: set_takeWhileD)

lemma takeWhile_run_dash:
  "takeWhile number_class (takeWhile number_class u @ dash_tail t) = takeWhile number_class u"
  using dash_tail_cases[of t]
  by (auto simp: takeWhile_tail dash_not_number)

lemma dropWhile_run_dash:
  "dropWhile number_class (takeWhile number_class u @ dash_tail t) = dash_tail t"
  using dash_tail_cases[of t]
  by (auto simp: dropWhile_append dash_not_number dest: set_takeWhileD)

lemma number_at_segment:
  assumes "number_at u = Some r"
  shows "registry_segment r"
proof -
  from assms have ne: "takeWhile number_class u \<noteq> []"
    and r: "r = takeWhile number_class u @ dash_tail (dropWhile number_class u)"
    by (auto simp: number_at_def split: if_splits)
  show ?thesis
    unfolding registry_segment_def r takeWhile_run_dash dropWhile_run_dash
    using ne dash_tail_cases[of "dropWhile number_class u"] by auto
qed

lemma number_at_prefix:
  assumes "number_at u = Some r"
  shows "\<exists>rest. u = r @ rest"
proof -
  let ?dw = "dropWhile number_class u"
  from assms have r: "r = takeWhile number_class u @ dash_tail ?dw"
    by (auto simp: number_at_def split: if_splits)
  have "?dw = dash_tail ?dw @ drop (length (dash_tail ?dw)) ?dw"
    by (metis append_take_drop_id take_dash_tail)
  then have "u = r @ drop (length (dash_tail ?dw)) ?dw"
    unfolding r by (metis append.assoc takeWhile_dropWhile_id)
  then show ?thesis ..
qed

lemma segment_nonempty_head:
  "registry_segment r \<Longrightarrow> \<exists>x xs. r = x # xs \<and> number_class x"
  by (cases r) (auto simp: registry_segment_def split: if_splits)

lemma number_at_longest:
  assumes "number_at u = Some r" and u: "u = r' @ rest'" and seg: "registry_segment r'"
  shows "length r' \<le> length r"
proof -
  let ?tw = "takeWhile number_class" and ?dw = "dropWhile number_class"
  from assms(1) have r: "r = ?tw u @ dash_tail (?dw u)"
    by (auto simp: number_at_def split: if_splits)
  show ?thesis
  proof (cases "?dw r'")
    case Nil
    then have all: "\<forall>x\<in>set r'. number_class x" by (simp add: dropWhile_eq_Nil_conv)
    then have "?tw u = r' @ ?tw rest'" unfolding u by (simp add: takeWhile_append2)
    then show ?thesis unfolding r by simp
  next
    case (Cons c es)
    with seg have c: "c = CHR ''-''" and es: "es \<noteq> []" "list_all digit_class es"
      by (auto simp: registry_segment_def)
    have r': "r' = ?tw r' @ CHR ''-'' # es"
      using Cons c by (metis takeWhile_dropWhile_id)
    have u': "u = ?tw r' @ CHR ''-'' # (es @ rest')"
      unfolding u by (subst r') simp
    have tw: "?tw u = ?tw r'"
      by (subst u') (simp add: takeWhile_tail dash_not_number)
    have dw: "?dw u = CHR ''-'' # (es @ rest')"
      by (subst u') (auto simp: dropWhile_append dash_not_number dest: set_takeWhileD)
    have "takeWhile digit_class (es @ rest') = es @ takeWhile digit_class rest'"
      using es(2) by (simp add: takeWhile_append2 list_all_iff)
    then have "dash_tail (?dw u) = CHR ''-'' # es @ takeWhile digit_class rest'"
      using es(1) by (simp add: dw dash_tail_def)
    then have "length r = length (?tw r') + 1 + length es + length (takeWhile digit_class rest')"
      unfolding r tw by simp
    moreover have "length r' = length (?tw r') + 1 + length es"
      by (subst r') simp
    ultimately show ?thesis by simp
  qed
qed

lemma number_at_of_segment:
  assumes "registry_segment r"
  shows "number_at (r @ rest) \<noteq> None"
proof -
  from segment_nonempty_head[OF assms] obtain x xs where "r = x # xs" "number_class x" by blast
  then show ?thesis by (simp add: number_at_def)
qed

lemma match_at_None:
  assumes "match_at s = None"
  shows "\<not> match_starts s"
proof
  assume "match_starts s"
  then obtain sep r rest where s: "s = ''BSG'' @ sep @ r @ rest"
    and sep: "separator_ok sep" and seg: "registry_segment r"
    unfolding match_starts_def by blast
  from segment_nonempty_head[OF seg] obtain x xs where r: "r = x # xs" and x: "number_class x"
    by blast
  have nn: "number_at (r @ rest) \<noteq> None" by (rule number_at_of_segment[OF seg])
  show False
  proof (cases sep)
    case Nil
    with s r have "drop 3 s = x # (xs @ rest)" "take 3 s = ''BSG''" by simp_all
    moreover have "\<not> separator_class x" using x separator_not_number by blast
    ultimately show False using assms nn r by (simp add: match_at_def)
  next
    case (Cons c cs)
    with sep have c: "separator_class c" and cs: "cs = []" by (simp_all add: separator_ok_def)
    with s Cons have "drop 3 s = c # (r @ rest)" "take 3 s = ''BSG''" by simp_all
    then show False using assms nn c by (simp add: match_at_def)
  qed
qed

lemma match_at_Some:
  assumes "match_at s = Some r"
  shows "\<exists>sep rest. s = ''BSG'' @ sep @ r @ rest \<and> separator_ok sep \<and> registry_segment r \<and>
           (\<forall>r' rest'. r @ rest = r' @ rest' \<and> registry_segment r' \<longrightarrow> length r' \<le> length r)"
proof -
  from assms have t3: "take 3 s = ''BSG''" by (simp add: match_at_def split: if_splits)
  then have s: "s = ''BSG'' @ drop 3 s" by (metis append_take_drop_id)
  from assms t3 obtain x xs where d: "drop 3 s = x # xs"
    by (cases "drop 3 s") (simp_all add: match_at_def)
  show ?thesis
  proof (cases "separator_class x")
    case True
    with assms t3 d have n: "number_at xs = Some r" by (simp add: match_at_def)
    from number_at_prefix[OF n] obtain rest where xs: "xs = r @ rest" by blast
    have "s = ''BSG'' @ [x] @ r @ rest" using s d xs by simp
    moreover have "separator_ok [x]" using True by (simp add: separator_ok_def)
    moreover have "registry_segment r" by (rule number_at_segment[OF n])
    moreover have "\<forall>r' rest'. r @ rest = r' @ rest' \<and> registry_segment r' \<longrightarrow> length r' \<le> length r"
      using number_at_longest[OF n] xs by blast
    ultimately show ?thesis by blast
  next
    case False
    with assms t3 d have n: "number_at (x # xs) = Some r" by (simp add: match_at_def)
    from number_at_prefix[OF n] obtain rest where xs: "x # xs = r @ rest" by blast
    have "s = ''BSG'' @ [] @ r @ rest" using s d xs by simp
    moreover have "separator_ok []" by (simp add: separator_ok_def)
    moreover have "registry_segment r" by (rule number_at_segment[OF n])
    moreover have "\<forall>r' rest'. r @ rest = r' @ rest' \<and> registry_segment r' \<longrightarrow> length r' \<le> length r"
      using number_at_longest[OF n] xs by metis
    ultimately show ?thesis by blast
  qed
qed

lemma extract_None_all:
  "extract_bsg_number title = None \<Longrightarrow> title = pre @ t \<Longrightarrow> match_at t = None"
proof (induction title arbitrary: pre)
  case Nil
  then show ?case by (simp add: match_at_def)
next
  case (Cons c cs)
  from Cons.prems(1) have m: "match_at (c # cs) = None" and e: "extract_bsg_number cs = None"
    by (auto simp: extract_bsg_number_Cons split: option.splits)
  show ?case
  proof (cases pre)
    case Nil
    with Cons.prems(2) m show ?thesis by simp
  next
    case (Cons p ps)
    with Cons.prems(2) have "cs = ps @ t" by simp
    then show ?thesis using Cons.IH[OF e] by blast
  qed
qed

lemma extract_Some_first:
  "extract_bsg_number title = Some r \<Longrightarrow>
   \<exists>pre t. title = pre @ t \<and> match_at t = Some r \<and>
     (\<forall>p u. title = p @ u \<and> length p < length pre \<longrightarrow> match_at u = None)"
proof (induction title)
  case Nil
  then show ?case by (simp add: extract_bsg_number_Nil)
next
  case (Cons c cs)
  show ?case
  proof (cases "match_at (c # cs)")
    case (Some r0)
    with Cons.prems have "r0 = r" by (simp add: extract_bsg_number_Cons)
    with Some have "c # cs = [] @ (c # cs) \<and> match_at (c # cs) = Some r \<and>
      (\<forall>p u. c # cs = p @ u \<and> length p < length ([]::string) \<longrightarrow> match_at u = None)" by simp
    then show ?thesis by blast
  next
    case None
    with Cons.prems have "extract_bsg_number cs = Some r" by (simp add: extract_bsg_number_Cons)
    from Cons.IH[OF this] obtain pre t where cs: "cs = pre @ t" and m: "match_at t = Some r"
      and first: "\<forall>p u. cs = p @ u \<and> length p < length pre \<longrightarrow> match_at u = None" by blast
    have "\<forall>p u. c # cs = p @ u \<and> length p < length (c # pre) \<longrightarrow> match_at u = None"
    proof (intro allI impI)
      fix p u assume a: "c # cs = p @ u \<and> length p < length (c # pre)"
      show "match_at u = None"
      proof (cases p)
        case Nil
        with a None show ?thesis by simp
      next
        case (Cons q qs)
        with a have "cs = qs @ u" "length qs < length pre" by simp_all
        with first show ?thesis by blast
      qed
    qed
    moreover have "c # cs = (c # pre) @ t" using cs by simp
    ultimately show ?thesis using m by blast
  qed
qed

subsection \<open>Claims about the extraction\<close>

text \<open>
  Claim C4. For every title: \<^verbatim>\<open>extract_bsg_number\<close> returns no value exactly when the title
  does not match the registry pattern (the marker \<^verbatim>\<open>BSG\<close>, at most one white-space or
  underscore character, then digits and dots which a dash and digits may follow). When
  it returns \<open>r\<close>, the title is \<open>pre @ ''BSG'' @ sep @ r @ rest\<close> with \<open>sep\<close> empty or one
  separator, \<open>r\<close> is a segment of digits and dots with an optional dash-and-digits
  suffix, no match starts at an earlier position of the title (it is the first match), and
  no longer segment starts where \<open>r\<close> starts (it is the whole segment after the marker).
  In particular the title \<^verbatim>\<open>BSG_432.311\<close> gives \<^verbatim>\<open>432.311\<close>, whose book number is \<^verbatim>\<open>432\<close>.
\<close>

theorem extract_bsg_number_first_segment:
  "(extract_bsg_number title = None \<longleftrightarrow> \<not> registry_pattern_matches title) \<and>
   (\<forall>r. extract_bsg_number title = Some r \<longrightarrow>
      (\<exists>pre sep rest.
          title = pre @ ''BSG'' @ sep @ r @ rest \<and> separator_ok sep \<and> registry_segment r \<and>
          (\<forall>p u. title = p @ u \<and> length p < length pre \<longrightarrow> \<not> match_starts u) \<and>
          (\<forall>r' rest'. r @ rest = r' @ rest' \<and> registry_segment r' \<longrightarrow> length r' \<le> length r))) \<and>
   extract_bsg_number ''BSG_432.311'' = Some ''432.311'' \<and>
   rechtsbuch ''432.311'' = ''432''"
proof (intro conjI allI impI)
  show "extract_bsg_number title = None \<longleftrightarrow> \<not> registry_pattern_matches title"
  proof
    assume none: "extract_bsg_number title = None"
    show "\<not> registry_pattern_matches title"
      unfolding registry_pattern_matches_def
      using extract_None_all[OF none] match_at_None by blast
  next
    assume nm: "\<not> registry_pattern_matches title"
    show "extract_bsg_number title = None"
    proof (cases "extract_bsg_number title")
      case None
      then show ?thesis .
    next
      case (Some r)
      from extract_Some_first[OF Some] obtain pre t
        where t: "title = pre @ t" and m: "match_at t = Some r" by blast
      from match_at_Some[OF m] have "match_starts t"
        unfolding match_starts_def by blast
      with t nm show ?thesis unfolding registry_pattern_matches_def by blast
    qed
  qed
next
  fix r assume some: "extract_bsg_number title = Some r"
  from extract_Some_first[OF some] obtain pre t
    where t: "title = pre @ t" and m: "match_at t = Some r"
      and first: "\<forall>p u. title = p @ u \<and> length p < length pre \<longrightarrow> match_at u = None"
    by blast
  from match_at_Some[OF m] obtain sep rest
    where dec: "t = ''BSG'' @ sep @ r @ rest" and sep: "separator_ok sep"
      and seg: "registry_segment r"
      and long: "\<forall>r' rest'. r @ rest = r' @ rest' \<and> registry_segment r' \<longrightarrow> length r' \<le> length r"
    by blast
  have "title = pre @ ''BSG'' @ sep @ r @ rest" using t dec by simp
  moreover have "\<forall>p u. title = p @ u \<and> length p < length pre \<longrightarrow> \<not> match_starts u"
    using first match_at_None by blast
  ultimately show "\<exists>pre sep rest.
          title = pre @ ''BSG'' @ sep @ r @ rest \<and> separator_ok sep \<and> registry_segment r \<and>
          (\<forall>p u. title = p @ u \<and> length p < length pre \<longrightarrow> \<not> match_starts u) \<and>
          (\<forall>r' rest'. r @ rest = r' @ rest' \<and> registry_segment r' \<longrightarrow> length r' \<le> length r)"
    using sep seg long by blast
next
  show "extract_bsg_number ''BSG_432.311'' = Some ''432.311''" by code_simp
next
  show "rechtsbuch ''432.311'' = ''432''" by (simp add: rechtsbuch_def)
qed

theorem extract_bsg_number_first_segment_witness:
  "extract_bsg_number ''Art. 5 BSG 153.01-2 (PG)'' = Some ''153.01-2'' \<and>
   (\<exists>pre sep rest.
      ''Art. 5 BSG 153.01-2 (PG)'' = pre @ ''BSG'' @ sep @ ''153.01-2'' @ rest \<and>
      separator_ok sep \<and> registry_segment ''153.01-2'' \<and>
      (\<forall>p u. ''Art. 5 BSG 153.01-2 (PG)'' = p @ u \<and> length p < length pre
          \<longrightarrow> \<not> match_starts u) \<and>
      (\<forall>r' rest'. ''153.01-2'' @ rest = r' @ rest' \<and> registry_segment r'
          \<longrightarrow> length r' \<le> length ''153.01-2'')) \<and>
   extract_bsg_number ''Unbekannt'' = None \<and>
   \<not> registry_pattern_matches ''Unbekannt''"
proof -
  have a: "extract_bsg_number ''Art. 5 BSG 153.01-2 (PG)'' = Some ''153.01-2''" by code_simp
  have b: "extract_bsg_number ''Unbekannt'' = None" by code_simp
  show ?thesis
    using a b extract_bsg_number_first_segment[of "''Art. 5 BSG 153.01-2 (PG)''"]
      extract_bsg_number_first_segment[of "''Unbekannt''"]
    by blast
qed

section \<open>Catalog display: results\<close>

lemma extract_segment:
  assumes "extract_bsg_number t = Some r"
  shows "registry_segment r"
proof -
  from extract_Some_first[OF assms] obtain u where "match_at u = Some r" by blast
  from match_at_Some[OF this] show ?thesis by blast
qed

lemma digit_is_number: "digit_class c \<Longrightarrow> number_class c"
  by (simp add: number_class_def)

lemma segment_chars:
  assumes "registry_segment r" and "c \<in> set r"
  shows "number_class c \<or> c = CHR ''-''"
proof -
  have "set r = set (takeWhile number_class r) \<union> set (dropWhile number_class r)"
    by (metis set_append takeWhile_dropWhile_id)
  with assms(2) consider "c \<in> set (takeWhile number_class r)" | "c \<in> set (dropWhile number_class r)"
    by blast
  then show ?thesis
  proof cases
    case 1
    then show ?thesis by (blast dest: set_takeWhileD)
  next
    case 2
    then show ?thesis using assms(1)
      by (cases "dropWhile number_class r")
         (auto simp: registry_segment_def list_all_iff digit_is_number)
  qed
qed

lemma rechtsbuch_chars:
  assumes "registry_segment r"
  shows "book_chars (rechtsbuch r)"
  unfolding book_chars_def list_all_iff rechtsbuch_def
proof
  fix c assume "c \<in> set (takeWhile (\<lambda>c. c \<noteq> CHR ''.'') r)"
  then have "c \<in> set r" "c \<noteq> CHR ''.''" by (auto dest: set_takeWhileD)
  with segment_chars[OF assms] show "digit_class c \<or> c = CHR ''-''"
    by (auto simp: number_class_def)
qed

lemma isdigit_char_book:
  "isdigit_char c \<Longrightarrow> digit_class c \<or> c = CHR ''-'' \<Longrightarrow> digit_class c"
  by (auto simp: isdigit_char_def)

lemma rechtsbuch_key_book:
  assumes "book_chars k" and len: "length k \<le> max_str_digits"
  shows "rechtsbuch_key k = Inr (book_key k)"
proof (cases "py_isdigit k")
  case False
  then show ?thesis by (simp add: rechtsbuch_key_def book_key_def)
next
  case True
  then have "k \<noteq> [] \<and> list_all digit_class k"
    using assms by (auto simp: py_isdigit_def book_chars_def list_all_iff intro: isdigit_char_book)
  with True len show ?thesis by (simp add: rechtsbuch_key_def book_key_def py_int_def)
qed

lemma map_fst_dd_append:
  "map fst (dd_append k v d) = (if k \<in> set (map fst d) then map fst d else map fst d @ [k])"
  by (induction d) force+

lemma group_step_keys:
  assumes "list_all book_chars (map fst (fst st))" and "distinct (map fst (fst st))"
  shows "list_all book_chars (map fst (fst (group_step st doc))) \<and>
         distinct (map fst (fst (group_step st doc)))"
proof (cases "extract_bsg_number (display_name_of doc)")
  case None
  then show ?thesis using assms by (simp add: group_step_def)
next
  case (Some r)
  have "book_chars (rechtsbuch r)" by (rule rechtsbuch_chars[OF extract_segment[OF Some]])
  then show ?thesis using assms Some
    by (simp add: group_step_def map_fst_dd_append)
qed

lemma foldl_group_step_keys:
  "list_all book_chars (map fst (fst st)) \<Longrightarrow> distinct (map fst (fst st)) \<Longrightarrow>
   list_all book_chars (map fst (fst (foldl group_step st docs))) \<and>
   distinct (map fst (fst (foldl group_step st docs)))"
proof (induction docs arbitrary: st)
  case Nil
  then show ?case by simp
next
  case (Cons doc docs)
  from group_step_keys[OF Cons.prems] Cons.IH[of "group_step st doc"]
  show ?case by simp
qed

lemma group_documents_keys:
  "list_all book_chars (map fst (fst (group_documents documents))) \<and>
   distinct (map fst (fst (group_documents documents)))"
  unfolding group_documents_def by (rule foldl_group_step_keys) simp_all

lemma keys_of_total:
  "\<forall>x\<in>set xs. f x = Inr (g x) \<Longrightarrow> keys_of f xs = Inr (map (\<lambda>x. (g x, x)) xs)"
  by (induction xs) simp_all

lemma insort_key_decorated:
  "insort_key fst (g x, x) (map (\<lambda>x. (g x, x)) ys) = map (\<lambda>x. (g x, x)) (insort_key g x ys)"
  by (induction ys) simp_all

lemma sort_key_decorated:
  "sort_key fst (map (\<lambda>x. (g x, x)) xs) = map (\<lambda>x. (g x, x)) (sort_key g xs)"
  by (induction xs) (simp_all add: insort_key_decorated)

lemma py_sorted_total:
  assumes "\<forall>x\<in>set xs. f x = Inr (g x)"
  shows "py_sorted f xs = Inr (sort_key g xs)"
  by (simp add: py_sorted_def keys_of_total[OF assms] sort_key_decorated comp_def)

lemma sorted_rechtsbuecher_book_key:
  assumes "list_all (\<lambda>k. length k \<le> max_str_digits)
             (map fst (fst (group_documents documents)))"
  shows "sorted_rechtsbuecher (fst (group_documents documents)) =
     Inr (sort_key book_key (map fst (fst (group_documents documents))))"
  unfolding sorted_rechtsbuecher_def
  using group_documents_keys[of documents] assms
  by (intro py_sorted_total) (auto simp: list_all_iff rechtsbuch_key_book)

text \<open>Three consequences of a list being sorted by \<open>book_key\<close>.\<close>

lemma book_key_sorted_digits:
  assumes "sorted (map book_key ks)"
  shows "sorted_wrt (\<lambda>a b. decimal_value a \<le> decimal_value b) (filter py_isdigit ks)"
proof -
  from assms have "sorted_wrt (\<lambda>a b. book_key a \<le> book_key b) ks"
    by (simp add: sorted_map)
  then have "sorted_wrt (\<lambda>a b. book_key a \<le> book_key b) (filter py_isdigit ks)"
    by (rule sorted_wrt_filter)
  then show ?thesis
    by (rule sorted_wrt_mono_rel[rotated]) (auto simp: book_key_def less_eq_prod_def)
qed

lemma book_key_sorted_others:
  assumes "sorted (map book_key ks)" and "distinct ks"
  shows "sorted_wrt (\<lambda>a b. a < b) (filter (\<lambda>k. \<not> py_isdigit k) ks)"
proof -
  from assms(1) have "sorted_wrt (\<lambda>a b. book_key a \<le> book_key b) ks"
    by (simp add: sorted_map)
  with assms(2) have "sorted_wrt (\<lambda>a b. book_key a \<le> book_key b \<and> a \<noteq> b) ks"
    by (auto simp: sorted_wrt_iff_nth_less nth_eq_iff_index_eq)
  then have "sorted_wrt (\<lambda>a b. book_key a \<le> book_key b \<and> a \<noteq> b) (filter (\<lambda>k. \<not> py_isdigit k) ks)"
    by (rule sorted_wrt_filter)
  then show ?thesis
    by (rule sorted_wrt_mono_rel[rotated]) (auto simp: book_key_def less_eq_prod_def)
qed

lemma book_key_sorted_mixed:
  assumes "sorted (map book_key ks)"
  shows "sorted_wrt (\<lambda>a b. \<not> (\<not> py_isdigit a \<and> py_isdigit b \<and> decimal_value b < 999999)) ks"
proof -
  from assms have "sorted_wrt (\<lambda>a b. book_key a \<le> book_key b) ks"
    by (simp add: sorted_map)
  then show ?thesis
    by (rule sorted_wrt_mono_rel[rotated]) (auto simp: book_key_def less_eq_prod_def)
qed


lemma sorted_rechtsbuecher_props:
  fixes ks0 :: "string list"
  defines "ks \<equiv> sort_key book_key ks0"
  assumes "distinct ks0"
  shows "mset ks = mset ks0" "distinct ks" "sorted (map book_key ks)"
proof -
  show m: "mset ks = mset ks0" by (simp add: ks_def)
  show "distinct ks" using assms(2) m by (metis mset_eq_imp_distinct_iff)
  show "sorted (map book_key ks)" by (simp add: ks_def)
qed

text \<open>
  What holds of the order of the sections for every list of documents none of whose book
  numbers is longer than what \<^verbatim>\<open>int\<close> converts: sorting the book numbers raises no
  exception, and the sections shown have exactly the book numbers of the
  grouping, each once, such that the all-digit book numbers stand in ascending numeric
  order; the other book numbers stand in ascending lexical order; no book number that is
  not all digits stands before an all-digit one whose value is below 999999; and within
  each section the documents of that book stand in ascending lexical order of their full
  registry number.
\<close>

lemma rechtsbuch_sections_order:
  assumes short: "list_all (\<lambda>k. length k \<le> max_str_digits)
                    (map fst (fst (group_documents documents)))"
  shows "\<exists>secs. rechtsbuch_sections documents = Inr secs \<and>
     mset (map fst secs) = mset (map fst (fst (group_documents documents))) \<and>
     distinct (map fst secs) \<and>
     sorted_wrt (\<lambda>a b. decimal_value a \<le> decimal_value b) (filter py_isdigit (map fst secs)) \<and>
     sorted_wrt (\<lambda>a b. a < b) (filter (\<lambda>k. \<not> py_isdigit k) (map fst secs)) \<and>
     sorted_wrt (\<lambda>a b. \<not> (\<not> py_isdigit a \<and> py_isdigit b \<and> decimal_value b < 999999))
       (map fst secs) \<and>
     list_all (\<lambda>sec. sorted (map fst (snd sec)) \<and>
                 mset (snd sec) = mset (dd_lookup (fst (group_documents documents)) (fst sec)))
       secs"
proof -
  define rb where "rb = fst (group_documents documents)"
  define ks where "ks = sort_key book_key (map fst rb)"
  define secs where "secs = map (\<lambda>k. (k, sort_key fst (dd_lookup rb k))) ks"
  have d0: "distinct (map fst rb)"
    unfolding rb_def using group_documents_keys[of documents] by simp
  have fst_secs: "map fst secs = ks" by (simp add: secs_def comp_def)
  have res: "rechtsbuch_sections documents = Inr secs"
    using sorted_rechtsbuecher_book_key[OF short]
    by (simp add: rechtsbuch_sections_def Let_def secs_def ks_def rb_def)
  have m: "mset ks = mset (map fst rb)" and d: "distinct ks" and s: "sorted (map book_key ks)"
    unfolding ks_def using sorted_rechtsbuecher_props[OF d0] by simp_all
  have groups: "list_all (\<lambda>sec. sorted (map fst (snd sec)) \<and>
                  mset (snd sec) = mset (dd_lookup rb (fst sec))) secs"
    by (simp add: secs_def list_all_iff)
  show ?thesis
    using res m d book_key_sorted_digits[OF s] book_key_sorted_others[OF s d]
      book_key_sorted_mixed[OF s] groups
    unfolding fst_secs[symmetric] rb_def by blast
qed

lemma rechtsbuch_sections_order_example:
  "rechtsbuch_sections
     [\<lparr>name = ''d1'', displayName = Some ''BSG 432.1''\<rparr>,
      \<lparr>name = ''d2'', displayName = Some ''BSG 12-3''\<rparr>,
      \<lparr>name = ''d3'', displayName = Some ''Unbekannt''\<rparr>,
      \<lparr>name = ''d4'', displayName = Some ''BSG_5.2''\<rparr>,
      \<lparr>name = ''d5'', displayName = Some ''BSG 432.01''\<rparr>]
   = Inr [(''5'', [(''5.2'', \<lparr>name = ''d4'', displayName = Some ''BSG_5.2''\<rparr>)]),
          (''432'', [(''432.01'', \<lparr>name = ''d5'', displayName = Some ''BSG 432.01''\<rparr>),
                     (''432.1'', \<lparr>name = ''d1'', displayName = Some ''BSG 432.1''\<rparr>)]),
          (''12-3'', [(''12-3'', \<lparr>name = ''d2'', displayName = Some ''BSG 12-3''\<rparr>)])] \<and>
   sorted_wrt (\<lambda>a b. decimal_value a \<le> decimal_value b)
     (filter py_isdigit [''5'', ''432'', ''12-3'']) \<and>
   sorted_wrt (\<lambda>a b. \<not> (\<not> py_isdigit a \<and> py_isdigit b \<and> decimal_value b < 999999))
     [''5'', ''432'', ''12-3'']"
proof -
  let ?docs = "[\<lparr>name = ''d1'', displayName = Some ''BSG 432.1''\<rparr>,
      \<lparr>name = ''d2'', displayName = Some ''BSG 12-3''\<rparr>,
      \<lparr>name = ''d3'', displayName = Some ''Unbekannt''\<rparr>,
      \<lparr>name = ''d4'', displayName = Some ''BSG_5.2''\<rparr>,
      \<lparr>name = ''d5'', displayName = Some ''BSG 432.01''\<rparr>]"
  have e: "rechtsbuch_sections ?docs
   = Inr [(''5'', [(''5.2'', \<lparr>name = ''d4'', displayName = Some ''BSG_5.2''\<rparr>)]),
          (''432'', [(''432.01'', \<lparr>name = ''d5'', displayName = Some ''BSG 432.01''\<rparr>),
                     (''432.1'', \<lparr>name = ''d1'', displayName = Some ''BSG 432.1''\<rparr>)]),
          (''12-3'', [(''12-3'', \<lparr>name = ''d2'', displayName = Some ''BSG 12-3''\<rparr>)])]"
    by code_simp
  have short: "list_all (\<lambda>k. length k \<le> max_str_digits)
                 (map fst (fst (group_documents ?docs)))"
    by code_simp
  from rechtsbuch_sections_order[OF short] obtain secs
    where s: "rechtsbuch_sections ?docs = Inr secs"
      and o1: "sorted_wrt (\<lambda>a b. decimal_value a \<le> decimal_value b)
                 (filter py_isdigit (map fst secs))"
      and o2: "sorted_wrt (\<lambda>a b. \<not> (\<not> py_isdigit a \<and> py_isdigit b \<and> decimal_value b < 999999))
                 (map fst secs)"
    by blast
  from s e have "map fst secs = [''5'', ''432'', ''12-3'']" by auto
  with o1 o2 e show ?thesis by simp
qed

text \<open>
  Claim C3. The claim: the all-digit book numbers are shown in ascending numeric order,
  every book number that is not all digits after every all-digit one, and the documents of
  a book in lexical order of their registry numbers. The sort key gives a book number that
  is not all digits the number 999999, to place it after the numeric ones; an all-digit
  book number of 999999 or more is not placed before it. With the documents \<^verbatim>\<open>BSG 12-3\<close>
  and \<^verbatim>\<open>BSG 1000000.1\<close> the book number \<^verbatim>\<open>12-3\<close>, which is not all digits, is shown before
  the all-digit book number \<^verbatim>\<open>1000000\<close>.
\<close>

theorem rechtsbuch_sections_large_number:
  "rechtsbuch_sections
     [\<lparr>name = ''d1'', displayName = Some ''BSG 12-3''\<rparr>,
      \<lparr>name = ''d2'', displayName = Some ''BSG 1000000.1''\<rparr>]
   = Inr [(''12-3'', [(''12-3'', \<lparr>name = ''d1'', displayName = Some ''BSG 12-3''\<rparr>)]),
          (''1000000'',
           [(''1000000.1'', \<lparr>name = ''d2'', displayName = Some ''BSG 1000000.1''\<rparr>)])] \<and>
   \<not> py_isdigit ''12-3'' \<and> py_isdigit ''1000000''"
  by code_simp

text \<open>
  Claim C10. The title \<^verbatim>\<open>BSG.\<close> contains the marker and no digit; \<^verbatim>\<open>extract_bsg_number\<close>
  returns the string \<^verbatim>\<open>.\<close> for it, not \<open>None\<close>; the book number of \<^verbatim>\<open>.\<close> is the empty
  string, and a document of that display name is grouped under the empty key.
\<close>

theorem extract_bsg_number_marker_dot:
  "extract_bsg_number ''BSG.'' = Some ''.'' \<and>
   \<not> list_ex digit_class ''BSG.'' \<and>
   rechtsbuch ''.'' = [] \<and>
   group_documents [\<lparr>name = ''d1'', displayName = Some ''BSG.''\<rparr>]
     = ([([], [(''.'', \<lparr>name = ''d1'', displayName = Some ''BSG.''\<rparr>)])], [])"
  by code_simp

section \<open>Citation formatter: results\<close>

lemma first_occurrences_snoc:
  "first_occurrences (xs @ [x]) =
     (if x \<in> set xs then first_occurrences xs else first_occurrences xs @ [x])"
  by (induction xs) auto

lemma set_first_occurrences [simp]: "set (first_occurrences xs) = set xs"
  by (induction xs) auto

lemma distinct_first_occurrences [simp]: "distinct (first_occurrences xs)"
  by (induction xs) (auto simp: distinct_removeAll)

lemma snippets_of_snoc:
  "snippets_of t (es @ [e]) =
     snippets_of t es @
       (if fst e = t then (case snd e of None \<Rightarrow> [] | Some s \<Rightarrow> if s \<noteq> [] then [py_strip s] else [])
        else [])"
  by (simp add: snippets_of_def map_filter_def split: option.splits)

lemma snippets_of_absent [simp]: "t \<notin> fst ` set es \<Longrightarrow> snippets_of t es = []"
  by (induction es) (auto simp: snippets_of_def map_filter_def)

lemma map_fst_citations [simp]: "map fst (citations es) = first_occurrences (map fst es)"
  by (simp add: citations_def comp_def)

lemma citations_snoc_absent:
  "citations (es @ [(t, None)]) = set_empty_if_absent t (citations es)"
  by (auto simp: citations_def set_empty_if_absent_def first_occurrences_snoc snippets_of_snoc
      comp_def)

lemma citations_snoc_empty:
  "citations (es @ [(t, Some [])]) = set_empty_if_absent t (citations es)"
  by (auto simp: citations_def set_empty_if_absent_def first_occurrences_snoc snippets_of_snoc
      comp_def)

lemma citations_snoc_text:
  "s \<noteq> [] \<Longrightarrow>
   citations (es @ [(t, Some s)]) = append_at t (py_strip s) (set_empty_if_absent t (citations es))"
  by (auto simp: citations_def set_empty_if_absent_def append_at_def first_occurrences_snoc
      snippets_of_snoc comp_def)


lemma add_chunk_entry:
  "add_chunk (citations es) ch =
     (case chunk_entry ch of None \<Rightarrow> citations es | Some e \<Rightarrow> citations (es @ [e]))"
  by (auto simp: add_chunk_def chunk_entry_def citations_snoc_absent citations_snoc_empty
      citations_snoc_text Let_def split: attr.splits)

lemma foldl_add_chunk:
  "foldl add_chunk (citations es) chunks = citations (es @ List.map_filter chunk_entry chunks)"
proof (induction chunks arbitrary: es)
  case Nil
  then show ?case by (simp add: map_filter_simps)
next
  case (Cons ch chunks)
  show ?case
  proof (cases "chunk_entry ch")
    case None
    then show ?thesis using Cons.IH[of es] by (simp add: add_chunk_entry map_filter_simps)
  next
    case (Some e)
    then show ?thesis using Cons.IH[of "es @ [e]"] by (simp add: add_chunk_entry map_filter_simps)
  qed
qed

lemma format_grounding_chunks_citations:
  assumes h: "\<not> list_holds_none response"
  shows "format_grounding_chunks response = Inr (citations (entries response))"
proof -
  have e: "citations ([] :: (string option \<times> string option) list) = []"
    by (simp add: citations_def)
  have run: "foldl add_chunk [] chunks = citations (List.map_filter chunk_entry chunks)"
    for chunks
    using foldl_add_chunk[of "[]" chunks] by (simp add: e)
  note defs = format_grounding_chunks_def entries_def response_chunks_def list_holds_none_def
  show ?thesis
  proof (cases "candidates response")
    case Missing
    then show ?thesis by (simp add: defs e map_filter_simps)
  next
    case Holds_None
    with h show ?thesis by (simp add: list_holds_none_def)
  next
    case (Holds cands)
    show ?thesis
    proof (cases cands)
      case Nil
      with Holds show ?thesis by (simp add: defs e map_filter_simps)
    next
      case (Cons cand others)
      show ?thesis
      proof (cases "grounding_metadata cand")
        case Missing
        with Holds Cons show ?thesis by (simp add: defs e map_filter_simps)
      next
        case Holds_None
        with Holds Cons show ?thesis by (simp add: defs e map_filter_simps)
      next
        case gr: (Holds gr)
        show ?thesis
        proof (cases "grounding_chunks gr")
          case Missing
          with Holds Cons gr show ?thesis by (simp add: defs e map_filter_simps)
        next
          case Holds_None
          with Holds Cons gr h show ?thesis by (simp add: list_holds_none_def)
        next
          case (Holds chunks)
          with \<open>candidates response = Holds cands\<close> Cons gr show ?thesis
            by (simp add: defs e run map_filter_simps)
        qed
      qed
    qed
  qed
qed

lemma map_of_graph:
  "map_of (map (\<lambda>t. (t, f t)) ts) t = (if t \<in> set ts then Some (f t) else None)"
  by (induction ts) auto

lemma map_of_citations:
  "map_of (citations es) t = (if t \<in> fst ` set es then Some (snippets_of t es) else None)"
  by (simp add: citations_def map_of_graph)

lemma snippets_of_none:
  "\<forall>e\<in>set es. fst e = t \<longrightarrow> snd e = None \<or> snd e = Some [] \<Longrightarrow> snippets_of t es = []"
  by (induction es) (auto simp: snippets_of_def map_filter_def)

text \<open>
  What holds when no list attribute holds \<^verbatim>\<open>None\<close>, a missing or empty chunk list
  included: the formatter raises nothing and returns the mapping of the specification. Its
  keys are the distinct titles of the chunks, each once, in the order of first encounter;
  the list of a title holds, in the order of encounter, the stripped text of each chunk of
  that title whose text is not empty (a text of white space only is not empty, and its
  stripped form, the empty string, is in the list); a title none of whose chunks has a
  text is mapped to the empty list.
\<close>

lemma format_grounding_chunks_mapping:
  assumes "\<not> list_holds_none response"
  shows "\<exists>d. format_grounding_chunks response = Inr d \<and>
     d = citations (entries response) \<and>
     distinct (map fst d) \<and>
     map fst d = first_occurrences (map fst (entries response)) \<and>
     (\<forall>t. map_of d t =
        (if t \<in> fst ` set (entries response)
         then Some (snippets_of t (entries response)) else None)) \<and>
     (\<forall>t. t \<in> fst ` set (entries response) \<and>
          (\<forall>e\<in>set (entries response). fst e = t \<longrightarrow> snd e = None \<or> snd e = Some [])
          \<longrightarrow> map_of d t = Some []) \<and>
     (response_chunks response = [] \<longrightarrow> d = [])"
proof -
  let ?es = "entries response"
  have look: "\<forall>t. map_of (citations ?es) t =
      (if t \<in> fst ` set ?es then Some (snippets_of t ?es) else None)"
    by (simp add: map_of_citations)
  have none: "\<forall>t. t \<in> fst ` set ?es \<and>
        (\<forall>e\<in>set ?es. fst e = t \<longrightarrow> snd e = None \<or> snd e = Some [])
        \<longrightarrow> map_of (citations ?es) t = Some []"
    using snippets_of_none[of ?es] by (simp add: map_of_citations)
  have empty: "response_chunks response = [] \<longrightarrow> citations ?es = []"
    by (simp add: entries_def citations_def map_filter_simps)
  show ?thesis
    using format_grounding_chunks_citations[OF assms] look none empty by simp
qed

lemma format_grounding_chunks_example:
  "format_grounding_chunks
     \<lparr>candidates = Holds [\<lparr>grounding_metadata = Holds \<lparr>grounding_chunks = Holds
        [\<lparr>retrieved_context = Holds \<lparr>chunk_title = Holds ''BSG_432.311'', chunk_text = Holds '' x ''\<rparr>\<rparr>,
         \<lparr>retrieved_context = Holds \<lparr>chunk_title = Holds ''b'', chunk_text = Holds_None\<rparr>\<rparr>,
         \<lparr>retrieved_context = Holds_None\<rparr>,
         \<lparr>retrieved_context = Holds \<lparr>chunk_title = Holds ''c'', chunk_text = Holds ''  ''\<rparr>\<rparr>,
         \<lparr>retrieved_context = Holds \<lparr>chunk_title = Holds ''BSG_432.311'', chunk_text = Holds ''y''\<rparr>\<rparr>]\<rparr>\<rparr>]\<rparr>
   = Inr [(Some ''BSG_432.311'', [''x'', ''y'']), (Some ''b'', []), (Some ''c'', [[]])] \<and>
   format_grounding_chunks \<lparr>candidates = Missing\<rparr> = Inr [] \<and>
   format_grounding_chunks
     \<lparr>candidates = Holds [\<lparr>grounding_metadata = Holds \<lparr>grounding_chunks = Holds []\<rparr>\<rparr>]\<rparr> = Inr []"
  by code_simp

text \<open>
  Claim C5. The claim: for every grounding-chunk list, the absent one included, the
  formatter produces a mapping with one entry per distinct title. The code tests for an
  absent list with \<^verbatim>\<open>hasattr\<close> and then takes \<^verbatim>\<open>len\<close>. When the list of chunks, or the list
  of candidates, is an attribute that holds \<^verbatim>\<open>None\<close>, as in the vendor's objects for a
  field that was not set, \<^verbatim>\<open>hasattr\<close> is true and \<^verbatim>\<open>len(None)\<close> raises \<^verbatim>\<open>TypeError\<close>: the
  formatter produces no mapping.
\<close>

theorem format_grounding_chunks_none_list:
  "format_grounding_chunks
     \<lparr>candidates = Holds [\<lparr>grounding_metadata = Holds \<lparr>grounding_chunks = Holds_None\<rparr>\<rparr>]\<rparr>
   = Inl TypeError \<and>
   format_grounding_chunks \<lparr>candidates = Holds_None\<rparr> = Inl TypeError"
  by (simp add: format_grounding_chunks_def)

section \<open>Title resolver: results\<close>

lemma get_law_name_never_raises: "\<exists>v. get_law_name str_of net nr = Inr v"
  by (simp add: get_law_name_def split: sum.splits)

lemma get_law_name_none:
  "title_and_abbreviation (net (law_request nr)) = None \<Longrightarrow> get_law_name str_of net nr = Inr None"
  by (auto simp: get_law_name_def get_law_name_try_def title_and_abbreviation_def on_value_def
      field_or_empty_def
      split: http_outcome.splits if_splits option.splits json.splits sum.splits)

lemma get_law_name_some:
  "title_and_abbreviation (net (law_request nr)) = Some (t, a) \<Longrightarrow>
   get_law_name str_of net nr =
     Inr (if truthy t \<and> truthy a
          then Some (JStr (py_format str_of t @ '' ('' @ py_format str_of a @ '')''))
          else if truthy t then Some t else None)"
  by (auto simp: get_law_name_def get_law_name_try_def title_and_abbreviation_def on_value_def
      field_or_empty_def
      split: http_outcome.splits if_splits option.splits json.splits sum.splits)

text \<open>
  Claim C6. For every behaviour of the network, \<^verbatim>\<open>get_law_name\<close> returns a value and never
  raises. On status 200 with a title and an abbreviation present (truthy), it returns
  \<^verbatim>\<open>title (abbreviation)\<close>; for strings that is the title, a space, and the abbreviation in
  parentheses. On status 200 with a title only it returns the title. In every other case
  it returns \<^verbatim>\<open>None\<close>: the title missing or empty, a status other than 200, an exception
  of the request (a timeout, a network error), a body that does not decode, or a body of
  another shape.
\<close>

theorem get_law_name_results:
  "(\<exists>v. get_law_name str_of net nr = Inr v) \<and>
   (\<forall>r kvs law t a.
      net (law_request nr) = Returned r \<and> status_code r = 200 \<and>
      json_body r = Some (JObj kvs) \<and> map_of kvs ''text_of_law'' = Some (JObj law) \<and>
      map_of law ''title'' = Some (JStr t) \<and> t \<noteq> [] \<and>
      map_of law ''abbreviation'' = Some (JStr a) \<and> a \<noteq> []
      \<longrightarrow> get_law_name str_of net nr = Inr (Some (JStr (t @ '' ('' @ a @ '')'')))) \<and>
   (\<forall>r kvs law t.
      net (law_request nr) = Returned r \<and> status_code r = 200 \<and>
      json_body r = Some (JObj kvs) \<and> map_of kvs ''text_of_law'' = Some (JObj law) \<and>
      map_of law ''title'' = Some (JStr t) \<and> t \<noteq> [] \<and>
      map_of law ''abbreviation'' \<in> set [None, Some JNull, Some (JStr [])]
      \<longrightarrow> get_law_name str_of net nr = Inr (Some (JStr t))) \<and>
   (\<forall>t a. title_and_abbreviation (net (law_request nr)) = Some (t, a) \<and> truthy t \<and> truthy a
      \<longrightarrow> get_law_name str_of net nr =
            Inr (Some (JStr (py_format str_of t @ '' ('' @ py_format str_of a @ '')'')))) \<and>
   (\<forall>t a. title_and_abbreviation (net (law_request nr)) = Some (t, a) \<and> truthy t \<and> \<not> truthy a
      \<longrightarrow> get_law_name str_of net nr = Inr (Some t)) \<and>
   (\<forall>t a. title_and_abbreviation (net (law_request nr)) = Some (t, a) \<and> \<not> truthy t
      \<longrightarrow> get_law_name str_of net nr = Inr None) \<and>
   (title_and_abbreviation (net (law_request nr)) = None
      \<longrightarrow> get_law_name str_of net nr = Inr None) \<and>
   (\<forall>r. net (law_request nr) = Returned r \<and> status_code r \<noteq> 200
      \<longrightarrow> get_law_name str_of net nr = Inr None) \<and>
   (\<forall>e. net (law_request nr) = Raised e \<longrightarrow> get_law_name str_of net nr = Inr None) \<and>
   (\<forall>r. net (law_request nr) = Returned r \<and> json_body r = None
      \<longrightarrow> get_law_name str_of net nr = Inr None)"
proof (intro conjI allI impI)
  show "\<exists>v. get_law_name str_of net nr = Inr v" by (rule get_law_name_never_raises)
next
  fix r kvs law t a
  assume h: "net (law_request nr) = Returned r \<and> status_code r = 200 \<and>
      json_body r = Some (JObj kvs) \<and> map_of kvs ''text_of_law'' = Some (JObj law) \<and>
      map_of law ''title'' = Some (JStr t) \<and> t \<noteq> [] \<and>
      map_of law ''abbreviation'' = Some (JStr a) \<and> a \<noteq> []"
  then have "title_and_abbreviation (net (law_request nr)) = Some (JStr t, JStr a)"
    by (simp add: title_and_abbreviation_def field_or_empty_def)
  from get_law_name_some[of net nr "JStr t" "JStr a" str_of, OF this] h
  show "get_law_name str_of net nr = Inr (Some (JStr (t @ '' ('' @ a @ '')'')))"
    by (simp add: py_format_def)
next
  fix r kvs law t
  assume h: "net (law_request nr) = Returned r \<and> status_code r = 200 \<and>
      json_body r = Some (JObj kvs) \<and> map_of kvs ''text_of_law'' = Some (JObj law) \<and>
      map_of law ''title'' = Some (JStr t) \<and> t \<noteq> [] \<and>
      map_of law ''abbreviation'' \<in> set [None, Some JNull, Some (JStr [])]"
  then obtain a where "title_and_abbreviation (net (law_request nr)) = Some (JStr t, a)"
    and "\<not> truthy a"
    by (auto simp: title_and_abbreviation_def field_or_empty_def)
  with get_law_name_some[of net nr "JStr t" a str_of] h
  show "get_law_name str_of net nr = Inr (Some (JStr t))" by simp
next
  fix t a
  assume "title_and_abbreviation (net (law_request nr)) = Some (t, a) \<and> truthy t \<and> truthy a"
  then show "get_law_name str_of net nr =
            Inr (Some (JStr (py_format str_of t @ '' ('' @ py_format str_of a @ '')'')))"
    using get_law_name_some[of net nr t a str_of] by simp
next
  fix t a
  assume "title_and_abbreviation (net (law_request nr)) = Some (t, a) \<and> truthy t \<and> \<not> truthy a"
  then show "get_law_name str_of net nr = Inr (Some t)"
    using get_law_name_some[of net nr t a str_of] by simp
next
  fix t a
  assume "title_and_abbreviation (net (law_request nr)) = Some (t, a) \<and> \<not> truthy t"
  then show "get_law_name str_of net nr = Inr None"
    using get_law_name_some[of net nr t a str_of] by simp
next
  assume "title_and_abbreviation (net (law_request nr)) = None"
  then show "get_law_name str_of net nr = Inr None" by (rule get_law_name_none)
next
  fix r
  assume "net (law_request nr) = Returned r \<and> status_code r \<noteq> 200"
  then have "title_and_abbreviation (net (law_request nr)) = None"
    by (simp add: title_and_abbreviation_def)
  then show "get_law_name str_of net nr = Inr None" by (rule get_law_name_none)
next
  fix e
  assume "net (law_request nr) = Raised e"
  then have "title_and_abbreviation (net (law_request nr)) = None"
    by (simp add: title_and_abbreviation_def)
  then show "get_law_name str_of net nr = Inr None" by (rule get_law_name_none)
next
  fix r
  assume "net (law_request nr) = Returned r \<and> json_body r = None"
  then have "title_and_abbreviation (net (law_request nr)) = None"
    by (simp add: title_and_abbreviation_def)
  then show "get_law_name str_of net nr = Inr None" by (rule get_law_name_none)
qed

theorem get_law_name_results_witness:
  "get_law_name (\<lambda>v. [])
     (\<lambda>q. Returned \<lparr>status_code = 200, body_text = [],
             json_body = Some (JObj [(''text_of_law'',
               JObj [(''title'', JStr ''Personalgesetz''), (''abbreviation'', JStr ''PG'')])])\<rparr>)
     ''153.01'' = Inr (Some (JStr ''Personalgesetz (PG)'')) \<and>
   get_law_name (\<lambda>v. [])
     (\<lambda>q. Returned \<lparr>status_code = 200, body_text = [],
             json_body = Some (JObj [(''text_of_law'', JObj [(''title'', JStr ''Personalgesetz'')])])\<rparr>)
     ''153.01'' = Inr (Some (JStr ''Personalgesetz'')) \<and>
   get_law_name (\<lambda>v. [])
     (\<lambda>q. Returned \<lparr>status_code = 404, body_text = ''Not Found'', json_body = None\<rparr>)
     ''153.01'' = Inr None \<and>
   get_law_name (\<lambda>v. [])
     (\<lambda>q. Returned \<lparr>status_code = 500, body_text = [], json_body = None\<rparr>)
     ''153.01'' = Inr None \<and>
   get_law_name (\<lambda>v. []) (\<lambda>q. Raised Timeout) ''153.01'' = Inr None"
proof -
  let ?both = "\<lambda>q::request. Returned \<lparr>status_code = 200, body_text = [],
             json_body = Some (JObj [(''text_of_law'',
               JObj [(''title'', JStr ''Personalgesetz''), (''abbreviation'', JStr ''PG'')])])\<rparr>"
  let ?only = "\<lambda>q::request. Returned \<lparr>status_code = 200, body_text = [],
             json_body = Some (JObj [(''text_of_law'', JObj [(''title'', JStr ''Personalgesetz'')])])\<rparr>"
  let ?nf = "\<lambda>q::request. Returned \<lparr>status_code = 404, body_text = ''Not Found'', json_body = None\<rparr>"
  let ?err = "\<lambda>q::request. Returned \<lparr>status_code = 500, body_text = [], json_body = None\<rparr>"
  let ?to = "\<lambda>q::request. Raised Timeout"
  have 1: "get_law_name (\<lambda>v. []) ?both ''153.01'' = Inr (Some (JStr ''Personalgesetz (PG)''))"
    using get_law_name_results[of "\<lambda>v. []" ?both "''153.01''"] by simp
  have 2: "get_law_name (\<lambda>v. []) ?only ''153.01'' = Inr (Some (JStr ''Personalgesetz''))"
    using get_law_name_results[of "\<lambda>v. []" ?only "''153.01''"] by simp
  have 3: "get_law_name (\<lambda>v. []) ?nf ''153.01'' = Inr None"
    using get_law_name_results[of "\<lambda>v. []" ?nf "''153.01''"] by simp
  have 4: "get_law_name (\<lambda>v. []) ?err ''153.01'' = Inr None"
    using get_law_name_results[of "\<lambda>v. []" ?err "''153.01''"] by simp
  have 5: "get_law_name (\<lambda>v. []) ?to ''153.01'' = Inr None"
    using get_law_name_results[of "\<lambda>v. []" ?to "''153.01''"] by simp
  from 1 2 3 4 5 show ?thesis by simp
qed

section \<open>Catalog listing: results\<close>

lemma loop_page_next:
  assumes "is_page p" and "truthy (next_page_token p)"
  shows "list_documents_loop k f (p # net) tok docs sent =
         list_documents_loop k f net (next_page_token p) (docs @ records_of p)
           (sent @ [list_request k f tok])"
  using assms
  by (auto simp: is_page_def page_records_def next_page_token_def records_of_def
      documents_entry_def py_extend_def on_value_def Let_def
      split: http_outcome.splits if_splits option.splits json.splits sum.splits)

lemma loop_page_last:
  assumes "is_page p" and "\<not> truthy (next_page_token p)"
  shows "list_documents_loop k f (p # net) tok docs sent =
         Some (Inr (docs @ records_of p, []), sent @ [list_request k f tok])"
  using assms
  by (auto simp: is_page_def page_records_def next_page_token_def records_of_def
      documents_entry_def py_extend_def on_value_def Let_def
      split: http_outcome.splits if_splits option.splits json.splits sum.splits)

lemma loop_failed_status:
  assumes "status_code r \<noteq> 200"
  shows "list_documents_loop k f (Returned r # net) tok docs sent =
         Some (Inr (docs, [Error_status (status_code r), Error_body (body_text r)]),
               sent @ [list_request k f tok])"
  using assms by (simp add: Let_def)

lemma loop_pages:
  assumes "\<forall>p\<in>set pages. is_page p \<and> truthy (next_page_token p)"
  shows "list_documents_loop k f (pages @ net) tok docs sent =
         list_documents_loop k f net (last (tok # map next_page_token pages))
           (docs @ concat (map records_of pages))
           (sent @ map (list_request k f) (butlast (tok # map next_page_token pages)))"
  using assms
proof (induction pages arbitrary: tok docs sent)
  case Nil
  then show ?case by simp
next
  case (Cons p pages)
  from Cons.prems have p: "is_page p" "truthy (next_page_token p)"
    and rest: "\<forall>q\<in>set pages. is_page q \<and> truthy (next_page_token q)" by simp_all
  show ?case
    using Cons.IH[OF rest, of "next_page_token p" "docs @ records_of p"
        "sent @ [list_request k f tok]"]
    by (simp add: loop_page_next[OF p] del: list_documents_loop.simps)
qed


lemma pages_then_final_outcome:
  assumes "\<forall>p\<in>set pages. is_page p \<and> truthy (next_page_token p)"
  shows "(is_page final \<and> \<not> truthy (next_page_token final) \<longrightarrow>
            list_documents (pages @ final # rest) api_key filestore_id =
              Some (concat (map records_of (pages @ [final])), [],
                    map (list_request api_key filestore_id)
                      (JNull # map next_page_token pages))) \<and>
         (\<forall>r. final = Returned r \<and> status_code r \<noteq> 200 \<longrightarrow>
            list_documents (pages @ final # rest) api_key filestore_id =
              Some (concat (map records_of pages),
                    [Error_status (status_code r), Error_body (body_text r)],
                    map (list_request api_key filestore_id)
                      (JNull # map next_page_token pages)))"
proof -
  define toks where "toks = JNull # map next_page_token pages"
  define req where "req = list_request api_key filestore_id"
  have "toks \<noteq> []" by (simp add: toks_def)
  then have "butlast toks @ [last toks] = toks" by (rule append_butlast_last_id)
  then have "map req (butlast toks @ [last toks]) = map req toks" by (rule arg_cong)
  then have sent: "map req (butlast toks) @ [req (last toks)] = map req toks" by simp
  have run: "list_documents_loop api_key filestore_id (pages @ final # rest) JNull [] [] =
        list_documents_loop api_key filestore_id (final # rest) (last toks)
          (concat (map records_of pages)) (map req (butlast toks))"
    using loop_pages[OF assms, of api_key filestore_id "final # rest" JNull "[]" "[]"]
    unfolding toks_def req_def by simp
  have done_ok: "list_documents (pages @ final # rest) api_key filestore_id =
              Some (concat (map records_of (pages @ [final])), [], map req toks)"
    if p: "is_page final" "\<not> truthy (next_page_token final)"
    unfolding list_documents_def run loop_page_last[OF p] req_def
    using sent[unfolded req_def] by simp
  have done_bad: "list_documents (pages @ final # rest) api_key filestore_id =
              Some (concat (map records_of pages),
                    [Error_status (status_code r), Error_body (body_text r)], map req toks)"
    if f: "final = Returned r" and s: "status_code r \<noteq> 200" for r
    unfolding list_documents_def f run[unfolded f] loop_failed_status[OF s] req_def
    using sent[unfolded req_def] by simp
  show ?thesis
    using done_ok done_bad unfolding toks_def req_def by blast
qed

lemma sent_requests_explicit:
  assumes "\<forall>p\<in>set pages. is_page p \<and> truthy (next_page_token p)"
  shows "map (list_request api_key filestore_id) (JNull # map next_page_token pages) =
     \<lparr>http_method = ''GET'',
      url = ''https://generativelanguage.googleapis.com/v1beta/'' @ filestore_id @ ''/documents'',
      headers = [(''x-goog-api-key'', api_key)],
      params = [(''pageSize'', JNum 20)],
      timeout = None\<rparr> #
     map (\<lambda>p. \<lparr>http_method = ''GET'',
                url = ''https://generativelanguage.googleapis.com/v1beta/'' @ filestore_id @
                      ''/documents'',
                headers = [(''x-goog-api-key'', api_key)],
                params = [(''pageSize'', JNum 20), (''pageToken'', next_page_token p)],
                timeout = None\<rparr>) pages"
  using assms by (simp add: list_request_def documents_base_def)

text \<open>
  Claim C7. Let the network answer with any number (zero, one or many) of pages that each
  carry a next-page token, and then with one more outcome. If that outcome is a page
  without a token, \<^verbatim>\<open>list_documents\<close> returns the document records of all these pages,
  concatenated in order, and shows no message. If it is a response whose status is not
  200, \<^verbatim>\<open>list_documents\<close> returns the records of the pages before it and shows the status
  and the body. In both cases the requests sent are these, in order: first a \<^verbatim>\<open>GET\<close> of the
  documents of the store with the API key in the header \<^verbatim>\<open>x-goog-api-key\<close> and the
  parameter \<^verbatim>\<open>pageSize\<close> 20 alone; then, for each page that carried a token, the same
  request with the parameter \<^verbatim>\<open>pageToken\<close> set to the token of that page. No request
  follows the last outcome.
\<close>

theorem list_documents_pages:
  assumes "\<forall>p\<in>set pages. is_page p \<and> truthy (next_page_token p)"
  shows "(is_page final \<and> \<not> truthy (next_page_token final) \<longrightarrow>
            list_documents (pages @ final # rest) api_key filestore_id =
              Some (concat (map records_of (pages @ [final])), [],
                    \<lparr>http_method = ''GET'',
                     url = ''https://generativelanguage.googleapis.com/v1beta/'' @ filestore_id @
                           ''/documents'',
                     headers = [(''x-goog-api-key'', api_key)],
                     params = [(''pageSize'', JNum 20)],
                     timeout = None\<rparr> #
                    map (\<lambda>p. \<lparr>http_method = ''GET'',
                               url = ''https://generativelanguage.googleapis.com/v1beta/'' @
                                     filestore_id @ ''/documents'',
                               headers = [(''x-goog-api-key'', api_key)],
                               params = [(''pageSize'', JNum 20),
                                         (''pageToken'', next_page_token p)],
                               timeout = None\<rparr>) pages)) \<and>
         (\<forall>r. final = Returned r \<and> status_code r \<noteq> 200 \<longrightarrow>
            list_documents (pages @ final # rest) api_key filestore_id =
              Some (concat (map records_of pages),
                    [Error_status (status_code r), Error_body (body_text r)],
                    \<lparr>http_method = ''GET'',
                     url = ''https://generativelanguage.googleapis.com/v1beta/'' @ filestore_id @
                           ''/documents'',
                     headers = [(''x-goog-api-key'', api_key)],
                     params = [(''pageSize'', JNum 20)],
                     timeout = None\<rparr> #
                    map (\<lambda>p. \<lparr>http_method = ''GET'',
                               url = ''https://generativelanguage.googleapis.com/v1beta/'' @
                                     filestore_id @ ''/documents'',
                               headers = [(''x-goog-api-key'', api_key)],
                               params = [(''pageSize'', JNum 20),
                                         (''pageToken'', next_page_token p)],
                               timeout = None\<rparr>) pages))"
  using pages_then_final_outcome[OF assms, of final rest api_key filestore_id]
  unfolding sent_requests_explicit[OF assms, of api_key filestore_id] .

theorem list_documents_pages_witness:
  "list_documents
     [Returned \<lparr>status_code = 200, body_text = [],
        json_body = Some (JObj [(''documents'', JArr [JStr ''d1'', JStr ''d2'']),
                                (''nextPageToken'', JStr ''t1'')])\<rparr>,
      Returned \<lparr>status_code = 200, body_text = [],
        json_body = Some (JObj [(''documents'', JArr [JStr ''d3''])])\<rparr>]
     ''key'' ''stores/s''
   = Some ([JStr ''d1'', JStr ''d2'', JStr ''d3''], [],
           [\<lparr>http_method = ''GET'',
             url = ''https://generativelanguage.googleapis.com/v1beta/stores/s/documents'',
             headers = [(''x-goog-api-key'', ''key'')],
             params = [(''pageSize'', JNum 20)], timeout = None\<rparr>,
            \<lparr>http_method = ''GET'',
             url = ''https://generativelanguage.googleapis.com/v1beta/stores/s/documents'',
             headers = [(''x-goog-api-key'', ''key'')],
             params = [(''pageSize'', JNum 20), (''pageToken'', JStr ''t1'')],
             timeout = None\<rparr>]) \<and>
   list_documents
     [Returned \<lparr>status_code = 200, body_text = [],
        json_body = Some (JObj [(''documents'', JArr [JStr ''d1'', JStr ''d2'']),
                                (''nextPageToken'', JStr ''t1'')])\<rparr>,
      Returned \<lparr>status_code = 503, body_text = ''unavailable'', json_body = None\<rparr>]
     ''key'' ''stores/s''
   = Some ([JStr ''d1'', JStr ''d2''], [Error_status 503, Error_body ''unavailable''],
           [\<lparr>http_method = ''GET'',
             url = ''https://generativelanguage.googleapis.com/v1beta/stores/s/documents'',
             headers = [(''x-goog-api-key'', ''key'')],
             params = [(''pageSize'', JNum 20)], timeout = None\<rparr>,
            \<lparr>http_method = ''GET'',
             url = ''https://generativelanguage.googleapis.com/v1beta/stores/s/documents'',
             headers = [(''x-goog-api-key'', ''key'')],
             params = [(''pageSize'', JNum 20), (''pageToken'', JStr ''t1'')],
             timeout = None\<rparr>]) \<and>
   list_documents
     [Returned \<lparr>status_code = 200, body_text = [], json_body = Some (JObj [])\<rparr>]
     ''key'' ''stores/s''
   = Some ([], [],
           [\<lparr>http_method = ''GET'',
             url = ''https://generativelanguage.googleapis.com/v1beta/stores/s/documents'',
             headers = [(''x-goog-api-key'', ''key'')],
             params = [(''pageSize'', JNum 20)], timeout = None\<rparr>])"
proof -
  let ?p1 = "Returned \<lparr>status_code = 200, body_text = [],
        json_body = Some (JObj [(''documents'', JArr [JStr ''d1'', JStr ''d2'']),
                                (''nextPageToken'', JStr ''t1'')])\<rparr>"
  let ?p2 = "Returned \<lparr>status_code = 200, body_text = [],
        json_body = Some (JObj [(''documents'', JArr [JStr ''d3''])])\<rparr>"
  let ?bad = "Returned \<lparr>status_code = 503, body_text = ''unavailable'', json_body = None\<rparr>"
  let ?p0 = "Returned \<lparr>status_code = 200, body_text = [], json_body = Some (JObj [])\<rparr>"
  note ev = is_page_def page_records_def next_page_token_def records_of_def
  have h: "\<forall>p\<in>set [?p1]. is_page p \<and> truthy (next_page_token p)"
    by (simp add: ev)
  have h0: "\<forall>p\<in>set ([]::http_outcome list). is_page p \<and> truthy (next_page_token p)"
    by simp
  have a: "list_documents ([?p1] @ ?p2 # []) ''key'' ''stores/s'' =
      Some ([JStr ''d1'', JStr ''d2'', JStr ''d3''], [],
           [\<lparr>http_method = ''GET'',
             url = ''https://generativelanguage.googleapis.com/v1beta/stores/s/documents'',
             headers = [(''x-goog-api-key'', ''key'')],
             params = [(''pageSize'', JNum 20)], timeout = None\<rparr>,
            \<lparr>http_method = ''GET'',
             url = ''https://generativelanguage.googleapis.com/v1beta/stores/s/documents'',
             headers = [(''x-goog-api-key'', ''key'')],
             params = [(''pageSize'', JNum 20), (''pageToken'', JStr ''t1'')],
             timeout = None\<rparr>])"
    using list_documents_pages[OF h, of ?p2 "[]" "''key''" "''stores/s''"]
    by (simp add: ev)
  have b: "list_documents ([?p1] @ ?bad # []) ''key'' ''stores/s'' =
      Some ([JStr ''d1'', JStr ''d2''], [Error_status 503, Error_body ''unavailable''],
           [\<lparr>http_method = ''GET'',
             url = ''https://generativelanguage.googleapis.com/v1beta/stores/s/documents'',
             headers = [(''x-goog-api-key'', ''key'')],
             params = [(''pageSize'', JNum 20)], timeout = None\<rparr>,
            \<lparr>http_method = ''GET'',
             url = ''https://generativelanguage.googleapis.com/v1beta/stores/s/documents'',
             headers = [(''x-goog-api-key'', ''key'')],
             params = [(''pageSize'', JNum 20), (''pageToken'', JStr ''t1'')],
             timeout = None\<rparr>])"
    using list_documents_pages[OF h, of ?bad "[]" "''key''" "''stores/s''"]
    by (simp add: ev)
  have c: "list_documents ([] @ ?p0 # []) ''key'' ''stores/s'' =
      Some ([], [],
           [\<lparr>http_method = ''GET'',
             url = ''https://generativelanguage.googleapis.com/v1beta/stores/s/documents'',
             headers = [(''x-goog-api-key'', ''key'')],
             params = [(''pageSize'', JNum 20)], timeout = None\<rparr>])"
    using list_documents_pages[OF h0, of ?p0 "[]" "''key''" "''stores/s''"]
    by (simp add: ev)
  from a b c show ?thesis by simp
qed

section \<open>Catalog upload: results\<close>

text \<open>
  Claim C2. In \<^verbatim>\<open>app.py\<close> the name \<^verbatim>\<open>Path\<close> is bound neither at module level nor in the
  function. For every uploaded file, every environment and every file system,
  \<^verbatim>\<open>upload_file_to_filestore\<close> of \<^verbatim>\<open>app.py\<close> returns \<^verbatim>\<open>None\<close>, shows the \<^verbatim>\<open>NameError\<close>, creates no
  temporary file and does not call the vendor.
\<close>

theorem app_upload_file_to_filestore_name_error:
  "''Path'' \<notin> set app_module_names \<and> ''Path'' \<notin> set upload_locals \<and>
   app_upload_file_to_filestore env fs filestore_id uploaded_file display_name =
     (None, fs, [Shown (Error_exception (NameError ''Path''))])"
  by (simp add: app_upload_file_to_filestore_def upload_file_to_filestore_def resolve_def
      app_module_names_def upload_locals_def)

text \<open>
  What holds of the cleanup. When the temporary file is created and written and
  \<^verbatim>\<open>os.unlink\<close> does not raise, the file does not exist when the function returns, whether
  the vendor call returns a response (which is then the result) or raises (the exception
  is then shown and the result is \<^verbatim>\<open>None\<close>).
\<close>

lemma upload_file_to_filestore_cleanup:
  assumes "resolve upload_locals module_names ''Path'' = Inr ()"
    and "named_temporary_file env (path_suffix env (file_name uploaded_file)) = Inr p"
    and "write_temp env p (file_value uploaded_file) = None"
    and "unlink env p = None"
  shows "p \<notin> fst (snd (upload_file_to_filestore module_names make_call env fs filestore_id
                          uploaded_file display_name)) \<and>
         fst (upload_file_to_filestore module_names make_call env fs filestore_id
                uploaded_file display_name) =
           (case vendor_upload env (make_call env filestore_id p uploaded_file display_name) of
              Inl e \<Rightarrow> None | Inr r \<Rightarrow> Some r)"
  using assms
  by (simp add: upload_file_to_filestore_def Let_def split: sum.splits)

lemma upload_file_to_filestore_cleanup_example:
  "unibe_upload_file_to_filestore
     \<lparr>path_suffix = (\<lambda>n. ''.pdf''), named_temporary_file = (\<lambda>s. Inr (''/tmp/tmpab12'' @ s)),
      write_temp = (\<lambda>p c. None), vendor_upload = (\<lambda>c. Inr ''accepted''),
      unlink = (\<lambda>p. None), truth_value = (\<lambda>r. True),
      now_isoformat = ''2025-01-01T00:00:00''\<rparr>
     {''/data/a''} ''stores/s''
     \<lparr>file_name = ''gesetz.pdf'', file_type = ''application/pdf'', file_value = ''%PDF''\<rparr> None
   = (Some ''accepted'', {''/data/a''},
      [Temp_created ''/tmp/tmpab12.pdf'',
       Vendor_called \<lparr>file_search_store_name = ''stores/s'', file_path = ''/tmp/tmpab12.pdf'',
                       mime_type = None, shown_name = ''gesetz.pdf'',
                       custom_metadata = [(''uploaded_via'', ''webapp''),
                                          (''upload_timestamp'', ''2025-01-01T00:00:00'')]\<rparr>,
       Temp_removed ''/tmp/tmpab12.pdf'']) \<and>
   unibe_upload_file_to_filestore
     \<lparr>path_suffix = (\<lambda>n. ''.pdf''), named_temporary_file = (\<lambda>s. Inr (''/tmp/tmpab12'' @ s)),
      write_temp = (\<lambda>p c. None),
      vendor_upload = (\<lambda>c. Inl (VendorError ''quota'') :: py_exn + string),
      unlink = (\<lambda>p. None), truth_value = (\<lambda>r. True),
      now_isoformat = ''2025-01-01T00:00:00''\<rparr>
     {''/data/a''} ''stores/s''
     \<lparr>file_name = ''gesetz.pdf'', file_type = ''application/pdf'', file_value = ''%PDF''\<rparr> None
   = (None, {''/data/a''},
      [Temp_created ''/tmp/tmpab12.pdf'',
       Vendor_called \<lparr>file_search_store_name = ''stores/s'', file_path = ''/tmp/tmpab12.pdf'',
                       mime_type = None, shown_name = ''gesetz.pdf'',
                       custom_metadata = [(''uploaded_via'', ''webapp''),
                                          (''upload_timestamp'', ''2025-01-01T00:00:00'')]\<rparr>,
       Temp_removed ''/tmp/tmpab12.pdf'',
       Shown (Error_exception (VendorError ''quota''))])"
  by (simp add: unibe_upload_file_to_filestore_def upload_file_to_filestore_def resolve_def
      unibe_module_names_def upload_locals_def unibe_call_def name_shown_def Let_def)

text \<open>
  Claim C8. The claim: in every invocation in which the temporary file is created, it is
  removed before the function returns. The \<^verbatim>\<open>finally\<close> that removes it guards the vendor
  call only; the \<^verbatim>\<open>with\<close> block that creates and writes the file stands before it. In
  \<^verbatim>\<open>app_unibe.py\<close>, when writing the file raises (here \<^verbatim>\<open>OSError\<close>), the function shows
  the exception and returns \<^verbatim>\<open>None\<close> without calling the vendor, and the temporary file,
  which did not exist before, exists afterwards.
\<close>

theorem unibe_upload_write_fails_file_stays:
  "unibe_upload_file_to_filestore
     \<lparr>path_suffix = (\<lambda>n. ''.pdf''), named_temporary_file = (\<lambda>s. Inr (''/tmp/tmpab12'' @ s)),
      write_temp = (\<lambda>p c. Some OSError),
      vendor_upload = (\<lambda>c. Inr ''accepted''),
      unlink = (\<lambda>p. None), truth_value = (\<lambda>r. True),
      now_isoformat = ''2025-01-01T00:00:00''\<rparr>
     {''/data/a''} ''stores/s''
     \<lparr>file_name = ''gesetz.pdf'', file_type = ''application/pdf'', file_value = ''%PDF''\<rparr> None
   = (None, {''/tmp/tmpab12.pdf'', ''/data/a''},
      [Temp_created ''/tmp/tmpab12.pdf'', Shown (Error_exception OSError)]) \<and>
   ''/tmp/tmpab12.pdf'' \<notin> {''/data/a''} \<and>
   ''/tmp/tmpab12.pdf'' \<in> {''/tmp/tmpab12.pdf'', ''/data/a''}"
  by (simp add: unibe_upload_file_to_filestore_def upload_file_to_filestore_def resolve_def
      unibe_module_names_def upload_locals_def Let_def)

text \<open>
  Claim C9. For every chosen file of more than 100 MB (of 1024 * 1024 bytes each), whatever
  the upload function and whether or not a press of the button is reported, the form shows
  the size and the error and does nothing else: the upload function is not used, so there
  is no temporary file and no call of the vendor. For a file of at most 100 MB the upload
  button is shown.
\<close>

theorem upload_form_size_ceiling:
  "(100 * 1024 * 1024 < length (file_value uploaded_file) \<longrightarrow>
      upload_form upload env fs filestore_id (Some uploaded_file) display_name pressed =
        (fs, [Shown (Info_file_size (length (file_value uploaded_file))),
              Shown Error_file_too_large])) \<and>
   (length (file_value uploaded_file) \<le> 100 * 1024 * 1024 \<longrightarrow>
      Shown Button_upload \<in>
        set (snd (upload_form upload env fs filestore_id (Some uploaded_file) display_name
                    pressed)))"
proof -
  have mb: "(100 < real n / (1024 * 1024)) = (100 * 1024 * 1024 < n)" for n :: nat
    by (simp add: field_simps)
  show ?thesis
    by (auto simp: upload_form_def Let_def mb split: prod.splits)
qed

theorem upload_form_size_ceiling_witness:
  "100 * 1024 * 1024 < length (replicate (150 * 1024 * 1024) CHR ''x'') \<and>
   upload_form unibe_upload_file_to_filestore
     \<lparr>path_suffix = (\<lambda>n. ''.pdf''), named_temporary_file = (\<lambda>s. Inr (''/tmp/tmpab12'' @ s)),
      write_temp = (\<lambda>p c. None), vendor_upload = (\<lambda>c. Inr ''accepted''),
      unlink = (\<lambda>p. None), truth_value = (\<lambda>r. True),
      now_isoformat = ''2025-01-01T00:00:00''\<rparr>
     {} ''stores/s''
     (Some \<lparr>file_name = ''big.pdf'', file_type = ''application/pdf'',
            file_value = replicate (150 * 1024 * 1024) CHR ''x''\<rparr>) None True
   = ({}, [Shown (Info_file_size (150 * 1024 * 1024)), Shown Error_file_too_large]) \<and>
   length ''%PDF'' \<le> 100 * 1024 * 1024 \<and>
   Shown Button_upload \<in>
     set (snd (upload_form unibe_upload_file_to_filestore
       \<lparr>path_suffix = (\<lambda>n. ''.pdf''), named_temporary_file = (\<lambda>s. Inr (''/tmp/tmpab12'' @ s)),
        write_temp = (\<lambda>p c. None), vendor_upload = (\<lambda>c. Inr ''accepted''),
        unlink = (\<lambda>p. None), truth_value = (\<lambda>r. True),
        now_isoformat = ''2025-01-01T00:00:00''\<rparr>
       {} ''stores/s''
       (Some \<lparr>file_name = ''small.pdf'', file_type = ''application/pdf'',
              file_value = ''%PDF''\<rparr>) None False))"
proof -
  let ?env = "\<lparr>path_suffix = (\<lambda>n. ''.pdf''), named_temporary_file = (\<lambda>s. Inr (''/tmp/tmpab12'' @ s)),
      write_temp = (\<lambda>p c. None), vendor_upload = (\<lambda>c. Inr ''accepted''),
      unlink = (\<lambda>p. None), truth_value = (\<lambda>r. True),
      now_isoformat = ''2025-01-01T00:00:00''\<rparr>"
  let ?big = "\<lparr>file_name = ''big.pdf'', file_type = ''application/pdf'',
            file_value = replicate (150 * 1024 * 1024) CHR ''x''\<rparr>"
  let ?small = "\<lparr>file_name = ''small.pdf'', file_type = ''application/pdf'',
              file_value = ''%PDF''\<rparr>"
  have big: "100 * 1024 * 1024 < length (file_value ?big)" by simp
  have small: "length (file_value ?small) \<le> 100 * 1024 * 1024" by simp
  from upload_form_size_ceiling[of ?big unibe_upload_file_to_filestore ?env "{}" "''stores/s''"
      None True] big
  have 1: "upload_form unibe_upload_file_to_filestore ?env {} ''stores/s'' (Some ?big) None True
      = ({}, [Shown (Info_file_size (150 * 1024 * 1024)), Shown Error_file_too_large])"
    by simp
  from upload_form_size_ceiling[of ?small unibe_upload_file_to_filestore ?env "{}"
      "''stores/s''" None False] small
  have 2: "Shown Button_upload \<in>
     set (snd (upload_form unibe_upload_file_to_filestore ?env {} ''stores/s'' (Some ?small)
                 None False))"
    by blast
  from 1 2 show ?thesis by simp
qed


end
